theory Spec2Isabelle
  imports
    Main
    "HOL-Library.Char_ord"
    "HOL-Library.List_Lexorder"
    "HOL-Library.Sublist"
begin

section \<open>The task table\<close>

text \<open>
  The program is \<^verbatim>\<open>werrors1.py\<close>: a Tkinter to-do list over one SQLite table.
  A text value is a \<^typ>\<open>string\<close> whose characters are the code points below 256; on
  these, Python's \<^verbatim>\<open>str\<close> operations and SQLite's comparison of the UTF-8 encodings
  agree with the definitions below. A nullable text column (\<^verbatim>\<open>details\<close>,
  \<^verbatim>\<open>category\<close>) is a \<^typ>\<open>string option\<close>, \<open>None\<close> being SQL \<^verbatim>\<open>NULL\<close> and
  Python \<^verbatim>\<open>None\<close>. An \<^verbatim>\<open>INTEGER\<close> column is an \<^typ>\<open>int\<close>. SQLite stores
  integers in 64 bits, signed: \<open>int64\<close> is this range. The one value beyond it that the
  program can store is the \<^verbatim>\<open>REAL\<close> \<open>2\<^sup>6\<^sup>3\<close> that an overflowing \<^verbatim>\<open>MAX + 1\<close>
  leaves in \<^verbatim>\<open>order_index\<close>; there it is written as the \<^typ>\<open>int\<close> of the same value.
\<close>

record task =
  t_id :: int
  title :: string
  details :: "string option"
  category :: "string option"
  priority :: string
  due_date :: string
  is_done :: int
  order_index :: int
  created_at :: string
  updated_at :: string

text \<open>
  The database: the rows of \<^verbatim>\<open>tasks\<close> and the counter that \<^verbatim>\<open>AUTOINCREMENT\<close>
  keeps in \<^verbatim>\<open>sqlite_sequence\<close> (the largest id handed out so far).
\<close>

record store =
  rows :: "task list"
  seq :: int

datatype py_error = IntegrityError | AttributeError | OverflowError | CsvError

definition INT64_MAX :: int where
  "INT64_MAX = 9223372036854775807"

definition int64 :: "int \<Rightarrow> bool" where
  "int64 i = (- 9223372036854775808 \<le> i \<and> i \<le> INT64_MAX)"

definition PRIORITIES :: "string list" where
  "PRIORITIES = [''Low'', ''Medium'', ''High'']"

text \<open>The aggregate \<^verbatim>\<open>MAX(col)\<close>: \<^verbatim>\<open>NULL\<close> over no rows.\<close>

fun sql_max :: "int list \<Rightarrow> int option" where
  "sql_max [] = None"
| "sql_max (x # xs) = (case sql_max xs of None \<Rightarrow> Some x | Some m \<Rightarrow> Some (max x m))"

definition coalesce :: "int option \<Rightarrow> int \<Rightarrow> int" where
  "coalesce v d = (case v of None \<Rightarrow> d | Some x \<Rightarrow> x)"

text \<open>
  \<^verbatim>\<open>x + 1\<close> in SQLite: the sum of two 64-bit integers that does not fit is computed
  as a \<^verbatim>\<open>REAL\<close>, so the largest integer plus 1 is the \<^verbatim>\<open>REAL\<close> \<open>2\<^sup>6\<^sup>3\<close>, and
  this \<^verbatim>\<open>REAL\<close> plus 1 is itself again (the next double is 2048 away).
\<close>

definition sql_plus_one :: "int \<Rightarrow> int" where
  "sql_plus_one x = (if x < INT64_MAX then x + 1 else INT64_MAX + 1)"

text \<open>
  The row id of an insert into an \<^verbatim>\<open>AUTOINCREMENT\<close> table: one more than the largest
  id that ever existed.
\<close>

definition next_rowid :: "store \<Rightarrow> int" where
  "next_rowid s = max (seq s) (coalesce (sql_max (map t_id (rows s))) 0) + 1"

text \<open>
  \<^verbatim>\<open>TaskRepo.create\<close>. The clock reading \<open>now\<close> is
  \<^verbatim>\<open>datetime.now().isoformat(timespec="seconds")\<close>. The insert fails on the
  \<^verbatim>\<open>CHECK\<close> constraint of \<^verbatim>\<open>priority\<close>; \<^verbatim>\<open>due_date or ""\<close> turns
  \<^verbatim>\<open>None\<close> into the empty string. The result is the new store and
  \<^verbatim>\<open>cur.lastrowid\<close>. The table has no row id after the largest 64-bit integer:
  the definition is for stores whose next row id is in the range.
\<close>

definition create ::
  "string \<Rightarrow> string \<Rightarrow> string option \<Rightarrow> string option \<Rightarrow> string \<Rightarrow> string option
     \<Rightarrow> store \<Rightarrow> py_error + (store \<times> int)" where
  "create now ttl det cat pri due s =
     (let next_idx = sql_plus_one (coalesce (sql_max (map order_index (rows s))) 0);
          new_id = next_rowid s;
          r = \<lparr> t_id = new_id, title = ttl, details = det, category = cat, priority = pri,
                due_date = (case due of None \<Rightarrow> [] | Some d \<Rightarrow> d), is_done = 0,
                order_index = next_idx, created_at = now, updated_at = now \<rparr>
      in if pri \<notin> set PRIORITIES then Inl IntegrityError
         else Inr (s\<lparr> rows := rows s @ [r], seq := new_id \<rparr>, new_id))"

text \<open>The arguments of one call of \<^verbatim>\<open>create\<close>, with the clock reading of that call.\<close>

record create_args =
  a_now :: string
  a_title :: string
  a_details :: "string option"
  a_category :: "string option"
  a_priority :: string
  a_due_date :: "string option"

text \<open>Calls of \<^verbatim>\<open>create\<close> one after the other; the first exception ends the run.\<close>

fun create_all :: "create_args list \<Rightarrow> store \<Rightarrow> py_error + store" where
  "create_all [] s = Inr s"
| "create_all (a # as) s =
     (case create (a_now a) (a_title a) (a_details a) (a_category a) (a_priority a)
             (a_due_date a) s of
        Inl e \<Rightarrow> Inl e
      | Inr (s', _) \<Rightarrow> create_all as s')"

text \<open>
  The keyword arguments of \<^verbatim>\<open>TaskRepo.update\<close>: a Python dict with at most one value
  for each column, \<open>None\<close> for a key that is not supplied. The callers supply text for
  the text columns and an integer for \<^verbatim>\<open>is_done\<close>; no caller supplies \<^verbatim>\<open>id\<close>.
\<close>

record fields =
  f_title :: "string option"
  f_details :: "string option"
  f_category :: "string option"
  f_priority :: "string option"
  f_due_date :: "string option"
  f_is_done :: "int option"
  f_order_index :: "int option"
  f_created_at :: "string option"
  f_updated_at :: "string option"

definition no_fields :: fields where
  "no_fields = \<lparr> f_title = None, f_details = None, f_category = None, f_priority = None,
     f_due_date = None, f_is_done = None, f_order_index = None, f_created_at = None,
     f_updated_at = None \<rparr>"

text \<open>The \<^verbatim>\<open>SET k=?, ...\<close> list of the \<^verbatim>\<open>UPDATE\<close>, applied to one row.\<close>

definition set_fields :: "fields \<Rightarrow> task \<Rightarrow> task" where
  "set_fields f r =
     r\<lparr> title := (case f_title f of None \<Rightarrow> title r | Some v \<Rightarrow> v),
        details := (case f_details f of None \<Rightarrow> details r | Some v \<Rightarrow> Some v),
        category := (case f_category f of None \<Rightarrow> category r | Some v \<Rightarrow> Some v),
        priority := (case f_priority f of None \<Rightarrow> priority r | Some v \<Rightarrow> v),
        due_date := (case f_due_date f of None \<Rightarrow> due_date r | Some v \<Rightarrow> v),
        is_done := (case f_is_done f of None \<Rightarrow> is_done r | Some v \<Rightarrow> v),
        order_index := (case f_order_index f of None \<Rightarrow> order_index r | Some v \<Rightarrow> v),
        created_at := (case f_created_at f of None \<Rightarrow> created_at r | Some v \<Rightarrow> v),
        updated_at := (case f_updated_at f of None \<Rightarrow> updated_at r | Some v \<Rightarrow> v) \<rparr>"

text \<open>
  \<^verbatim>\<open>TaskRepo.update\<close>: \<^verbatim>\<open>if not fields: return\<close>, then
  \<^verbatim>\<open>fields["updated_at"] = now\<close> and \<^verbatim>\<open>UPDATE tasks SET ... WHERE id=?\<close>. Binding
  an integer outside the signed 64-bit range as a parameter raises
  \<^verbatim>\<open>OverflowError\<close> before the statement runs. SQLite evaluates the \<^verbatim>\<open>CHECK\<close>
  constraint of \<^verbatim>\<open>priority\<close> on a row that the statement changes when the statement
  assigns that column. Either failure leaves the table as it was. The id is a row id:
  an integer of the 64-bit range.
\<close>

definition binds :: "fields \<Rightarrow> bool" where
  "binds f =
     ((case f_is_done f of None \<Rightarrow> True | Some v \<Rightarrow> int64 v) \<and>
      (case f_order_index f of None \<Rightarrow> True | Some v \<Rightarrow> int64 v))"

definition update :: "string \<Rightarrow> int \<Rightarrow> fields \<Rightarrow> store \<Rightarrow> py_error + store" where
  "update now task_id f s =
     (if f = no_fields then Inr s
      else
        let f' = f\<lparr> f_updated_at := Some now \<rparr> in
        if \<not> binds f' then Inl OverflowError
        else if (case f_priority f' of None \<Rightarrow> False | Some p \<Rightarrow> p \<notin> set PRIORITIES) \<and>
           list_ex (\<lambda>r. t_id r = task_id) (rows s)
        then Inl IntegrityError
        else Inr (s\<lparr> rows :=
                    map (\<lambda>r. if t_id r = task_id then set_fields f' r else r) (rows s) \<rparr>))"

section \<open>Text and dates\<close>

text \<open>
  \<^verbatim>\<open>str.strip()\<close> removes leading and trailing whitespace. Below 256 the whitespace
  characters of Python are the code points 9 to 13, 28 to 32, 133 and 160.
\<close>

definition is_space :: "char \<Rightarrow> bool" where
  "is_space c =
     (let n = (of_char c :: nat)
      in (9 \<le> n \<and> n \<le> 13) \<or> (28 \<le> n \<and> n \<le> 32) \<or> n = 133 \<or> n = 160)"

definition strip :: "string \<Rightarrow> string" where
  "strip s = rev (dropWhile is_space (rev (dropWhile is_space s)))"

text \<open>A \<^verbatim>\<open>datetime.date\<close>; Python only builds the valid ones.\<close>

record date =
  year :: nat
  month :: nat
  day :: nat

definition is_leap :: "nat \<Rightarrow> bool" where
  "is_leap y = (y mod 4 = 0 \<and> (y mod 100 \<noteq> 0 \<or> y mod 400 = 0))"

definition days_in_month :: "nat \<Rightarrow> nat \<Rightarrow> nat" where
  "days_in_month y m =
     (if m = 2 then (if is_leap y then 29 else 28)
      else if m = 4 \<or> m = 6 \<or> m = 9 \<or> m = 11 then 30 else 31)"

definition date_valid :: "date \<Rightarrow> bool" where
  "date_valid d =
     (1 \<le> year d \<and> year d \<le> 9999 \<and> 1 \<le> month d \<and> month d \<le> 12 \<and>
      1 \<le> day d \<and> day d \<le> days_in_month (year d) (month d))"

text \<open>The comparison of two dates: by year, then month, then day.\<close>

definition date_lt :: "date \<Rightarrow> date \<Rightarrow> bool" where
  "date_lt a b =
     (year a < year b \<or>
      (year a = year b \<and> (month a < month b \<or> (month a = month b \<and> day a < day b))))"

definition date_le :: "date \<Rightarrow> date \<Rightarrow> bool" where
  "date_le a b = (date_lt a b \<or> a = b)"

definition next_day :: "date \<Rightarrow> date" where
  "next_day d =
     (if day d < days_in_month (year d) (month d) then d\<lparr> day := day d + 1 \<rparr>
      else if month d < 12 then \<lparr> year = year d, month = month d + 1, day = 1 \<rparr>
      else \<lparr> year = year d + 1, month = 1, day = 1 \<rparr>)"

text \<open>
  \<^verbatim>\<open>d + timedelta(days=n)\<close>: the \<open>n\<close>-th day after \<open>d\<close>; Python raises
  \<^verbatim>\<open>OverflowError\<close> past the year 9999.
\<close>

fun add_days :: "date \<Rightarrow> nat \<Rightarrow> py_error + date" where
  "add_days d 0 = Inr d"
| "add_days d (Suc n) =
     (if 9999 < year (next_day d) then Inl OverflowError else add_days (next_day d) n)"

definition in_range :: "char \<Rightarrow> char \<Rightarrow> char \<Rightarrow> bool" where
  "in_range lo hi c = (lo \<le> c \<and> c \<le> hi)"

definition is_digit :: "char \<Rightarrow> bool" where
  "is_digit c = in_range CHR ''0'' CHR ''9'' c"

definition digit_val :: "char \<Rightarrow> nat" where
  "digit_val c = of_char c - 48"

text \<open>
  \<^verbatim>\<open>datetime.strptime(s, "%Y-%m-%d")\<close>, \<open>None\<close> for \<^verbatim>\<open>ValueError\<close>. The
  standard library matches the regular expression
  \<^verbatim>\<open>(\d\d\d\d)-(1[0-2]|0[1-9]|[1-9])-(3[0-1]|[1-2]\d|0[1-9]|[1-9]| [1-9])\<close> at the start
  of the text, taking the alternatives in this order, rejects text that remains after
  the match and then builds the date, which rejects a day or a year that does not exist.
\<close>

fun parse_year :: "string \<Rightarrow> (nat \<times> string) option" where
  "parse_year (a # b # c # d # rest) =
     (if is_digit a \<and> is_digit b \<and> is_digit c \<and> is_digit d
      then Some (1000 * digit_val a + 100 * digit_val b + 10 * digit_val c + digit_val d, rest)
      else None)"
| "parse_year _ = None"

fun parse_month :: "string \<Rightarrow> (nat \<times> string) option" where
  "parse_month (a # b # rest) =
     (if a = CHR ''1'' \<and> in_range CHR ''0'' CHR ''2'' b then Some (10 + digit_val b, rest)
      else if a = CHR ''0'' \<and> in_range CHR ''1'' CHR ''9'' b then Some (digit_val b, rest)
      else if in_range CHR ''1'' CHR ''9'' a then Some (digit_val a, b # rest)
      else None)"
| "parse_month [a] = (if in_range CHR ''1'' CHR ''9'' a then Some (digit_val a, []) else None)"
| "parse_month [] = None"

fun parse_day :: "string \<Rightarrow> (nat \<times> string) option" where
  "parse_day (a # b # rest) =
     (if a = CHR ''3'' \<and> in_range CHR ''0'' CHR ''1'' b then Some (30 + digit_val b, rest)
      else if in_range CHR ''1'' CHR ''2'' a \<and> is_digit b
        then Some (10 * digit_val a + digit_val b, rest)
      else if a = CHR ''0'' \<and> in_range CHR ''1'' CHR ''9'' b then Some (digit_val b, rest)
      else if in_range CHR ''1'' CHR ''9'' a then Some (digit_val a, b # rest)
      else if a = CHR '' '' \<and> in_range CHR ''1'' CHR ''9'' b then Some (digit_val b, rest)
      else None)"
| "parse_day [a] = (if in_range CHR ''1'' CHR ''9'' a then Some (digit_val a, []) else None)"
| "parse_day [] = None"

fun expect_dash :: "string \<Rightarrow> string option" where
  "expect_dash (c # rest) = (if c = CHR ''-'' then Some rest else None)"
| "expect_dash [] = None"

definition strptime_date :: "string \<Rightarrow> date option" where
  "strptime_date s =
     (case parse_year s of None \<Rightarrow> None | Some (y, s1) \<Rightarrow>
      case expect_dash s1 of None \<Rightarrow> None | Some s2 \<Rightarrow>
      case parse_month s2 of None \<Rightarrow> None | Some (m, s3) \<Rightarrow>
      case expect_dash s3 of None \<Rightarrow> None | Some s4 \<Rightarrow>
      case parse_day s4 of None \<Rightarrow> None | Some (d, s5) \<Rightarrow>
        if s5 = [] \<and> date_valid \<lparr> year = y, month = m, day = d \<rparr>
        then Some \<lparr> year = y, month = m, day = d \<rparr> else None)"

text \<open>
  The text of a date in the fixed-width format \<^verbatim>\<open>YYYY-MM-DD\<close>: four digits, two
  digits, two digits.
\<close>

definition digit_char :: "nat \<Rightarrow> char" where
  "digit_char n = ''0123456789'' ! n"





section \<open>Statistics\<close>



section \<open>The add and edit dialog\<close>

text \<open>The text variables of a \<^verbatim>\<open>TaskDialog\<close> when the user presses OK.\<close>

record task_dialog =
  var_title :: string
  var_details :: string
  var_category :: string
  var_priority :: string
  var_due :: string

record dialog_result =
  r_title :: string
  r_details :: string
  r_category :: string
  r_priority :: string
  r_due_date :: string

text \<open>
  \<^verbatim>\<open>TaskDialog.on_ok\<close>: \<open>None\<close> when the title is blank (a warning is shown and
  \<^verbatim>\<open>self.result\<close> stays \<^verbatim>\<open>None\<close>). The check of the date is commented out in the
  source, and the priority of the result is the literal \<^verbatim>\<open>"Medium"\<close>.
\<close>

definition on_ok :: "task_dialog \<Rightarrow> dialog_result option" where
  "on_ok d =
     (let ttl = strip (var_title d) in
      if ttl = [] then None
      else
        let due = strip (var_due d) in
        Some \<lparr> r_title = ttl, r_details = strip (var_details d),
               r_category = strip (var_category d), r_priority = ''Medium'',
               r_due_date = due \<rparr>)"

text \<open>\<^verbatim>\<open>ToDoApp.on_add\<close>: \<^verbatim>\<open>if dlg.result: self.repo.create(**dlg.result)\<close>.\<close>

definition on_add :: "string \<Rightarrow> task_dialog \<Rightarrow> store \<Rightarrow> py_error + store" where
  "on_add now d s =
     (case on_ok d of
        None \<Rightarrow> Inr s
      | Some res \<Rightarrow>
          (case create now (r_title res) (Some (r_details res)) (Some (r_category res))
                  (r_priority res) (Some (r_due_date res)) s of
             Inl e \<Rightarrow> Inl e
           | Inr (s', _) \<Rightarrow> Inr s'))"

text \<open>
  \<^verbatim>\<open>ToDoApp.on_edit\<close> for the selected task:
  \<^verbatim>\<open>if dlg.result: self.repo.update(task_dict["id"], **dlg.result)\<close>.
\<close>

definition on_edit :: "string \<Rightarrow> int \<Rightarrow> task_dialog \<Rightarrow> store \<Rightarrow> py_error + store" where
  "on_edit now task_id d s =
     (case on_ok d of
        None \<Rightarrow> Inr s
      | Some res \<Rightarrow>
          update now task_id
            (no_fields\<lparr> f_title := Some (r_title res), f_details := Some (r_details res),
               f_category := Some (r_category res), f_priority := Some (r_priority res),
               f_due_date := Some (r_due_date res) \<rparr>) s)"

section \<open>Queries\<close>

text \<open>
  The state of the main window that a query reads. A filter combobox is read-only; its
  entry for all (a Cyrillic word, so no text of code points below 256) is the
  constructor \<open>All_entries\<close>, and the three entries of \<^verbatim>\<open>STATUSES\<close> (active, done,
  all; Cyrillic again) are the three constructors of \<open>status_filter\<close>.
\<close>

datatype status_filter = StatusActive | StatusDone | StatusAll

datatype combo = All_entries | Entry string

datatype column =
  Col_id | Col_title | Col_details | Col_category | Col_priority | Col_due_date
  | Col_is_done | Col_order_index | Col_created_at | Col_updated_at

record ui_state =
  var_search :: string
  var_filter_status :: status_filter
  var_filter_priority :: combo
  var_filter_category :: combo
  sort_by :: column
  sort_desc :: bool

text \<open>A value of a column, and SQLite's order of values: \<^verbatim>\<open>NULL\<close>, then integers, then text.\<close>

datatype sqlval = SNull | SInt int | SText string

fun sql_less :: "sqlval \<Rightarrow> sqlval \<Rightarrow> bool" where
  "sql_less SNull SNull = False"
| "sql_less SNull (SInt b) = True"
| "sql_less SNull (SText t) = True"
| "sql_less (SInt a) SNull = False"
| "sql_less (SInt a) (SInt b) = (a < b)"
| "sql_less (SInt a) (SText t) = True"
| "sql_less (SText u) SNull = False"
| "sql_less (SText u) (SInt b) = False"
| "sql_less (SText u) (SText t) = (u < t)"

definition text_or_null :: "string option \<Rightarrow> sqlval" where
  "text_or_null v = (case v of None \<Rightarrow> SNull | Some t \<Rightarrow> SText t)"

fun col :: "column \<Rightarrow> task \<Rightarrow> sqlval" where
  "col Col_id r = SInt (t_id r)"
| "col Col_title r = SText (title r)"
| "col Col_details r = text_or_null (details r)"
| "col Col_category r = text_or_null (category r)"
| "col Col_priority r = SText (priority r)"
| "col Col_due_date r = SText (due_date r)"
| "col Col_is_done r = SInt (is_done r)"
| "col Col_order_index r = SInt (order_index r)"
| "col Col_created_at r = SText (created_at r)"
| "col Col_updated_at r = SText (updated_at r)"

text \<open>
  SQLite's \<^verbatim>\<open>LIKE\<close> without \<^verbatim>\<open>ESCAPE\<close>: \<^verbatim>\<open>%\<close> matches any run of characters,
  \<^verbatim>\<open>_\<close> matches one character, any other character matches itself, the ASCII
  letters without regard to case. The function reads the pattern and the text as C
  strings, up to the first NUL character. A pattern of more than 50000 bytes is refused
  with an error; \<open>utf8_length\<close> is the number of bytes of a text in the database. The
  definition is the match for a pattern within this limit.
\<close>

definition c_string :: "string \<Rightarrow> string" where
  "c_string t = takeWhile (\<lambda>c. c \<noteq> CHR 0x00) t"

definition utf8_length :: "string \<Rightarrow> nat" where
  "utf8_length t = length t + length (filter (\<lambda>c. 128 \<le> (of_char c :: nat)) t)"

definition LIKE_PATTERN_LIMIT :: nat where
  "LIKE_PATTERN_LIMIT = 50000"

definition ascii_lower :: "char \<Rightarrow> char" where
  "ascii_lower c =
     (case map_of (zip ''ABCDEFGHIJKLMNOPQRSTUVWXYZ'' ''abcdefghijklmnopqrstuvwxyz'') c of
        None \<Rightarrow> c
      | Some l \<Rightarrow> l)"

fun like_match :: "string \<Rightarrow> string \<Rightarrow> bool" where
  "like_match [] t = (t = [])"
| "like_match (p # ps) [] = (p = CHR ''%'' \<and> like_match ps [])"
| "like_match (p # ps) (c # cs) =
     (if p = CHR ''%'' then like_match ps (c # cs) \<or> like_match (p # ps) cs
      else if p = CHR ''_'' then like_match ps cs
      else ascii_lower p = ascii_lower c \<and> like_match ps cs)"

definition like :: "string \<Rightarrow> string \<Rightarrow> bool" where
  "like pat t = like_match (c_string pat) (c_string t)"

text \<open>\<^verbatim>\<open>col LIKE ?\<close> on a nullable column: \<^verbatim>\<open>NULL\<close> is no match.\<close>

definition like_null :: "string \<Rightarrow> string option \<Rightarrow> bool" where
  "like_null pat v = (case v of None \<Rightarrow> False | Some t \<Rightarrow> like pat t)"

text \<open>
  One element of the list \<^verbatim>\<open>where\<close> with its parameters:
  \<^verbatim>\<open>(title LIKE ? OR details LIKE ? OR category LIKE ?)\<close> with the pattern bound three
  times, \<^verbatim>\<open>is_done=0\<close> or \<^verbatim>\<open>is_done=1\<close>, \<^verbatim>\<open>priority=?\<close>, \<^verbatim>\<open>category=?\<close>.
\<close>

datatype cond = Search_like string | Is_done_eq int | Priority_eq string | Category_eq string

fun eval_cond :: "cond \<Rightarrow> task \<Rightarrow> bool" where
  "eval_cond (Search_like pat) r =
     (like pat (title r) \<or> like_null pat (details r) \<or> like_null pat (category r))"
| "eval_cond (Is_done_eq v) r = (is_done r = v)"
| "eval_cond (Priority_eq p) r = (priority r = p)"
| "eval_cond (Category_eq c) r = (category r = Some c)"

text \<open>
  An \<^verbatim>\<open>ORDER BY\<close> list: columns with \<open>True\<close> for \<^verbatim>\<open>DESC\<close>. \<open>row_le\<close> says that a
  row does not sort after another one; the sort is by insertion.
\<close>

type_synonym order_term = "column \<times> bool"

fun row_le :: "order_term list \<Rightarrow> task \<Rightarrow> task \<Rightarrow> bool" where
  "row_le [] a b = True"
| "row_le ((c, desc) # ts) a b =
     (if col c a = col c b then row_le ts a b
      else if desc then sql_less (col c b) (col c a)
      else sql_less (col c a) (col c b))"

fun insert_row :: "order_term list \<Rightarrow> task \<Rightarrow> task list \<Rightarrow> task list" where
  "insert_row ts r [] = [r]"
| "insert_row ts r (x # xs) =
     (if row_le ts r x then r # x # xs else x # insert_row ts r xs)"

definition order_rows :: "order_term list \<Rightarrow> task list \<Rightarrow> task list" where
  "order_rows ts rs = foldr (insert_row ts) rs []"

text \<open>
  \<^verbatim>\<open>TaskRepo.fetch\<close>: \<^verbatim>\<open>SELECT * FROM tasks WHERE ... ORDER BY ...\<close>, the conditions
  joined by \<^verbatim>\<open>AND\<close>; with no condition there is no \<^verbatim>\<open>WHERE\<close>.
\<close>

definition fetch :: "cond list \<Rightarrow> order_term list \<Rightarrow> store \<Rightarrow> task list" where
  "fetch wh ob s = order_rows ob (filter (\<lambda>r. list_all (\<lambda>c. eval_cond c r) wh) (rows s))"

text \<open>\<^verbatim>\<open>ToDoApp._query_tasks\<close>: the list \<^verbatim>\<open>where\<close>, the text \<^verbatim>\<open>order\<close>, the fetch.\<close>

definition where_list :: "ui_state \<Rightarrow> cond list" where
  "where_list ui =
     (let q = strip (var_search ui) in
      (if q \<noteq> [] then [Search_like (''%'' @ q @ ''%'')] else []) @
      (case var_filter_status ui of
         StatusActive \<Rightarrow> [Is_done_eq 0]
       | StatusDone \<Rightarrow> [Is_done_eq 1]
       | StatusAll \<Rightarrow> []) @
      (case var_filter_priority ui of All_entries \<Rightarrow> [] | Entry pri \<Rightarrow> [Priority_eq pri]) @
      (case var_filter_category ui of All_entries \<Rightarrow> [] | Entry cat \<Rightarrow> [Category_eq cat]))"

definition order_list :: "ui_state \<Rightarrow> order_term list" where
  "order_list ui = [(sort_by ui, sort_desc ui), (Col_order_index, False), (Col_id, False)]"

definition query_tasks :: "ui_state \<Rightarrow> store \<Rightarrow> task list" where
  "query_tasks ui s = fetch (where_list ui) (order_list ui) s"

text \<open>\<^verbatim>\<open>ToDoApp._sort_by\<close>, the command of a column heading (before its \<^verbatim>\<open>refresh\<close>).\<close>

definition sort_by_heading :: "column \<Rightarrow> ui_state \<Rightarrow> ui_state" where
  "sort_by_heading c ui =
     (if sort_by ui = c then ui\<lparr> sort_desc := \<not> sort_desc ui \<rparr>
      else ui\<lparr> sort_by := c, sort_desc := False \<rparr>)"

text \<open>
  \<^verbatim>\<open>ToDoApp._apply_row_tags\<close>, with \<open>today\<close> for \<^verbatim>\<open>date.today()\<close>. The
  \<^verbatim>\<open>except ValueError\<close> catches the failure of \<^verbatim>\<open>strptime\<close>; the
  \<^verbatim>\<open>OverflowError\<close> of \<^verbatim>\<open>today + timedelta(days=3)\<close> is not caught.
\<close>

definition apply_row_tags :: "date \<Rightarrow> task \<Rightarrow> py_error + string list" where
  "apply_row_tags today row =
     (let tags = (if is_done row \<noteq> 0 then [''done''] else []);
          high = (if priority row = ''High'' then [''high''] else [])
      in if is_done row = 0 \<and> due_date row \<noteq> [] then
           (case strptime_date (due_date row) of
              None \<Rightarrow> Inr (tags @ high)
            | Some d \<Rightarrow>
                if date_lt d today then Inr (tags @ [''overdue''] @ high)
                else if d = today then Inr (tags @ [''today''] @ high)
                else
                  (case add_days today 3 of
                     Inl e \<Rightarrow> Inl e
                   | Inr limit \<Rightarrow>
                       if date_le d limit then Inr (tags @ [''soon''] @ high)
                       else Inr (tags @ high)))
         else Inr (tags @ high))"

text \<open>
  \<^verbatim>\<open>TaskRepo.all_categories\<close> and the part of \<^verbatim>\<open>ToDoApp.refresh\<close> that fills the
  table: the category filter falls back to all when its entry is no category of the
  table any more, then every row of the query is shown with its tags.
\<close>

definition all_categories :: "store \<Rightarrow> string list" where
  "all_categories s =
     sort (remdups (map (\<lambda>r. case category r of None \<Rightarrow> [] | Some c \<Rightarrow> c) (rows s)))"

fun tag_rows :: "date \<Rightarrow> task list \<Rightarrow> py_error + (task \<times> string list) list" where
  "tag_rows today [] = Inr []"
| "tag_rows today (r # rs) =
     (case apply_row_tags today r of
        Inl e \<Rightarrow> Inl e
      | Inr tags \<Rightarrow>
          (case tag_rows today rs of Inl e \<Rightarrow> Inl e | Inr shown \<Rightarrow> Inr ((r, tags) # shown)))"

definition refresh ::
  "date \<Rightarrow> ui_state \<Rightarrow> store \<Rightarrow> py_error + (ui_state \<times> (task \<times> string list) list)" where
  "refresh today ui s =
     (let cats = filter (\<lambda>c. c \<noteq> []) (all_categories s);
          ui' = (case var_filter_category ui of
                   All_entries \<Rightarrow> ui
                 | Entry c \<Rightarrow> if c \<in> set cats then ui else ui\<lparr> var_filter_category := All_entries \<rparr>)
      in case tag_rows today (query_tasks ui' s) of
           Inl e \<Rightarrow> Inl e
         | Inr shown \<Rightarrow> Inr (ui', shown))"

section \<open>CSV export and import\<close>

text \<open>
  A CSV file is taken as the list of the records that it encodes, each the list of its
  fields: what \<^verbatim>\<open>csv.writer\<close> is given row by row. The quoting of the \<^verbatim>\<open>csv\<close>
  module, which encodes and decodes such a list, is not modelled. \<^verbatim>\<open>csv.reader\<close>
  yields a record unless one of its fields is longer than
  \<^verbatim>\<open>csv.field_size_limit()\<close>, 131072 characters: there it raises \<^verbatim>\<open>csv.Error\<close>.
  The module of Python 3.11 and later reads a NUL character like any other character,
  an earlier one raises \<^verbatim>\<open>csv.Error\<close> on it: the definition is the later one, and
  the result on the round trip is for files without a NUL character.
\<close>

type_synonym csv_file = "string list list"

definition field_size_limit :: nat where
  "field_size_limit = 131072"

definition reader_yields :: "string list \<Rightarrow> bool" where
  "reader_yields record = list_all (\<lambda>field. length field \<le> field_size_limit) record"

text \<open>\<^verbatim>\<open>str(n)\<close> of an integer, and the field that \<^verbatim>\<open>csv.writer\<close> writes for a text or \<^verbatim>\<open>None\<close>.\<close>

fun show_nat :: "nat \<Rightarrow> string" where
  "show_nat n =
     (if n < 10 then [digit_char n] else show_nat (n div 10) @ [digit_char (n mod 10)])"

declare show_nat.simps [simp del]

definition show_int :: "int \<Rightarrow> string" where
  "show_int i = (if i < 0 then CHR ''-'' # show_nat (nat (- i)) else show_nat (nat i))"

definition csv_field :: "string option \<Rightarrow> string" where
  "csv_field v = (case v of None \<Rightarrow> [] | Some t \<Rightarrow> t)"

definition csv_header :: "string list" where
  "csv_header =
     [''id'', ''title'', ''details'', ''category'', ''priority'', ''due_date'', ''is_done'',
      ''created_at'', ''updated_at'', ''order_index'']"

text \<open>
  The text of an \<^verbatim>\<open>order_index\<close>: of the integer, or of the Python float that the
  \<^verbatim>\<open>REAL\<close> \<open>2\<^sup>6\<^sup>3\<close> is read as.
\<close>

definition show_order_index :: "int \<Rightarrow> string" where
  "show_order_index v =
     (if v = INT64_MAX + 1 then ''9.223372036854776e+18'' else show_int v)"

definition export_row :: "task \<Rightarrow> string list" where
  "export_row r =
     [show_int (t_id r), title r, csv_field (details r), csv_field (category r), priority r,
      due_date r, show_int (is_done r), created_at r, updated_at r,
      show_order_index (order_index r)]"

text \<open>
  \<^verbatim>\<open>ToDoApp.on_export_csv\<close> once a path is chosen: the header, then one record for
  each row of the current query.
\<close>

definition on_export_csv :: "ui_state \<Rightarrow> store \<Rightarrow> csv_file" where
  "on_export_csv ui s = csv_header # map export_row (query_tasks ui s)"

text \<open>
  The export opens the file with \<^verbatim>\<open>newline=""\<close>, the import with the default
  universal newlines: on reading, a carriage return with a line feed after it, or a
  carriage return alone, arrives as one line feed, also inside a quoted field.
\<close>

fun universal_newlines :: "string \<Rightarrow> string" where
  "universal_newlines [] = []"
| "universal_newlines [c] = [if c = CHR 0x0D then CHR 0x0A else c]"
| "universal_newlines (c # d # cs) =
     (if c = CHR 0x0D \<and> d = CHR 0x0A then CHR 0x0A # universal_newlines cs
      else if c = CHR 0x0D then CHR 0x0A # universal_newlines (d # cs)
      else c # universal_newlines (d # cs))"

definition read_text_mode :: "csv_file \<Rightarrow> csv_file" where
  "read_text_mode f = map (map universal_newlines) f"

text \<open>
  A row of \<^verbatim>\<open>csv.DictReader\<close>: \<^verbatim>\<open>dict(zip(fieldnames, row))\<close>, a later field winning
  over an earlier one of the same name, and \<^verbatim>\<open>None\<close> (the default \<^verbatim>\<open>restval\<close>) for
  the field names that a short record leaves without a value. \<open>row_get\<close> is
  \<^verbatim>\<open>row.get(key, default)\<close>.
\<close>

type_synonym dict_row = "string \<Rightarrow> string option option"

definition dict_of :: "string list \<Rightarrow> string list \<Rightarrow> dict_row" where
  "dict_of fieldnames row =
     map_of (rev (zip fieldnames
       (map Some row @ replicate (length fieldnames - length row) None)))"

definition row_get :: "dict_row \<Rightarrow> string \<Rightarrow> string \<Rightarrow> string option" where
  "row_get row key dflt = (case row key of None \<Rightarrow> Some dflt | Some v \<Rightarrow> v)"

text \<open>
  The body of the loop of \<^verbatim>\<open>ToDoApp.on_import_csv\<close> for one row. \<^verbatim>\<open>.strip()\<close> on
  \<^verbatim>\<open>None\<close> raises \<^verbatim>\<open>AttributeError\<close>; a blank title is the \<^verbatim>\<open>continue\<close>.
\<close>

definition import_row :: "string \<Rightarrow> dict_row \<Rightarrow> store \<Rightarrow> py_error + store" where
  "import_row now row s =
     (case row_get row ''title'' [] of
        None \<Rightarrow> Inl AttributeError
      | Some t \<Rightarrow>
          let ttl = strip t in
          if ttl = [] then Inr s
          else
            let det = row_get row ''details'' [];
                cat = row_get row ''category'' [];
                pri = (case row ''priority'' of
                         Some (Some p) \<Rightarrow> if p \<in> set PRIORITIES then p else ''Medium''
                       | _ \<Rightarrow> ''Medium'')
            in case row_get row ''due_date'' [] of
                 None \<Rightarrow> Inl AttributeError
               | Some dd \<Rightarrow>
                   let due = strip dd;
                       due' = (if due \<noteq> [] \<and> strptime_date due = None then [] else due)
                   in case create now ttl det cat pri (Some due') s of
                        Inl e \<Rightarrow> Inl e
                      | Inr (s', _) \<Rightarrow> Inr s')"

text \<open>
  The loop over the records after the header: the reader may raise at a record;
  \<^verbatim>\<open>DictReader\<close> skips an empty record;
  every \<^verbatim>\<open>create\<close> commits, so an exception leaves the rows imported before it. The
  clock reading for the \<open>k\<close>-th record that is not empty is \<open>clock k\<close>. The result is
  the store and the exception that ended the import, if any.
\<close>

fun import_rows ::
  "(nat \<Rightarrow> string) \<Rightarrow> nat \<Rightarrow> string list \<Rightarrow> csv_file \<Rightarrow> store \<Rightarrow> store \<times> py_error option" where
  "import_rows clock k fieldnames [] s = (s, None)"
| "import_rows clock k fieldnames (row # rest) s =
     (if \<not> reader_yields row then (s, Some CsvError)
      else if row = [] then import_rows clock k fieldnames rest s
      else
        (case import_row (clock k) (dict_of fieldnames row) s of
           Inl e \<Rightarrow> (s, Some e)
         | Inr s' \<Rightarrow> import_rows clock (Suc k) fieldnames rest s'))"

text \<open>
  \<^verbatim>\<open>ToDoApp.on_import_csv\<close> once a file is chosen and the question is answered with
  yes: the first record is the header; a file with no record imports nothing.
\<close>

definition on_import_csv :: "(nat \<Rightarrow> string) \<Rightarrow> csv_file \<Rightarrow> store \<Rightarrow> store \<times> py_error option" where
  "on_import_csv clock f s =
     (case f of
        [] \<Rightarrow> (s, None)
      | fieldnames # rest \<Rightarrow>
          if \<not> reader_yields fieldnames then (s, Some CsvError)
          else import_rows clock 0 fieldnames rest s)"

text \<open>
  The five values of a task that an export followed by an import is to reproduce; what
  the import makes of them for a row that the export wrote; and the rows on which the
  two agree.
\<close>

definition task_fields :: "task \<Rightarrow> string \<times> string option \<times> string option \<times> string \<times> string" where
  "task_fields r = (title r, details r, category r, priority r, due_date r)"

definition reimported :: "task \<Rightarrow> string \<times> string option \<times> string option \<times> string \<times> string" where
  "reimported r =
     (strip (universal_newlines (title r)),
      Some (universal_newlines (csv_field (details r))),
      Some (universal_newlines (csv_field (category r))),
      (if universal_newlines (priority r) \<in> set PRIORITIES then universal_newlines (priority r)
       else ''Medium''),
      (let due = strip (universal_newlines (due_date r))
       in if due \<noteq> [] \<and> strptime_date due = None then [] else due))"

definition title_kept :: "task \<Rightarrow> bool" where
  "title_kept r = (strip (universal_newlines (title r)) \<noteq> [])"

definition roundtrip_row :: "task \<Rightarrow> bool" where
  "roundtrip_row r =
     (title r \<noteq> [] \<and> strip (title r) = title r \<and> CHR 0x0D \<notin> set (title r) \<and>
      (case details r of None \<Rightarrow> False | Some d \<Rightarrow> CHR 0x0D \<notin> set d) \<and>
      (case category r of None \<Rightarrow> False | Some c \<Rightarrow> CHR 0x0D \<notin> set c) \<and>
      priority r \<in> set PRIORITIES \<and>
      (due_date r = [] \<or> strptime_date (due_date r) \<noteq> None))"

text \<open>
  The substring match that the specification names for the search: the text \<open>q\<close>
  occurs in \<open>t\<close> as a contiguous run, here without regard to the case of ASCII letters
  (the more permissive of the two readings that the specification allows).
\<close>

fun contains :: "string \<Rightarrow> string \<Rightarrow> bool" where
  "contains q [] = (q = [])"
| "contains q (c # cs) = (prefix q (c # cs) \<or> contains q cs)"

definition contains_ci :: "string \<Rightarrow> string \<Rightarrow> bool" where
  "contains_ci q t = contains (map ascii_lower q) (map ascii_lower t)"

definition search_substring :: "string \<Rightarrow> task \<Rightarrow> bool" where
  "search_substring q r =
     (contains_ci q (title r) \<or>
      (case details r of None \<Rightarrow> False | Some d \<Rightarrow> contains_ci q d) \<or>
      (case category r of None \<Rightarrow> False | Some c \<Rightarrow> contains_ci q c))"

text \<open>A text without a NUL character, and a row whose searched columns are such texts.\<close>

definition nul_free :: "string \<Rightarrow> bool" where
  "nul_free t = (CHR 0x00 \<notin> set t)"

definition nul_free_text :: "task \<Rightarrow> bool" where
  "nul_free_text r =
     (CHR 0x00 \<notin> set (title r) \<and>
      (case details r of None \<Rightarrow> True | Some d \<Rightarrow> CHR 0x00 \<notin> set d) \<and>
      (case category r of None \<Rightarrow> True | Some c \<Rightarrow> CHR 0x00 \<notin> set c))"

section \<open>Sample data\<close>

definition store0 :: store where
  "store0 = \<lparr> rows = [], seq = 0 \<rparr>"

definition args3 :: "create_args list" where
  "args3 =
     [\<lparr> a_now = ''2025-09-05T10:00:00'', a_title = ''a'', a_details = Some [],
        a_category = Some [], a_priority = ''Medium'', a_due_date = Some [] \<rparr>,
      \<lparr> a_now = ''2025-09-05T10:00:01'', a_title = ''b'', a_details = Some [],
        a_category = Some ''home'', a_priority = ''High'', a_due_date = Some ''2025-09-06'' \<rparr>,
      \<lparr> a_now = ''2025-09-05T10:00:01'', a_title = ''c'', a_details = None,
        a_category = None, a_priority = ''Low'', a_due_date = None \<rparr>]"

definition store2 :: store where
  "store2 =
     \<lparr> rows =
         [\<lparr> t_id = 1, title = ''a'', details = Some [], category = Some ''home'',
            priority = ''Medium'', due_date = ''2025-09-04'', is_done = 0, order_index = 1,
            created_at = ''2025-09-01T08:00:00'', updated_at = ''2025-09-01T08:00:00'' \<rparr>,
          \<lparr> t_id = 2, title = ''b'', details = None, category = None,
            priority = ''High'', due_date = [], is_done = 1, order_index = 2,
            created_at = ''2025-09-01T08:00:05'', updated_at = ''2025-09-02T09:00:00'' \<rparr>],
       seq = 2 \<rparr>"

definition dialog_high :: task_dialog where
  "dialog_high =
     \<lparr> var_title = ''Pay rent'', var_details = [], var_category = ''home'',
       var_priority = ''High'', var_due = ''2025-09-06'' \<rparr>"

definition day_0904 :: date where
  "day_0904 = \<lparr> year = 2025, month = 9, day = 4 \<rparr>"

definition day_0905 :: date where
  "day_0905 = \<lparr> year = 2025, month = 9, day = 5 \<rparr>"

text \<open>
  The example of the specification: A is due the day before \<open>day_0905\<close>, B on it, C two
  days later, and D is done and has no date.
\<close>

definition task_A :: task where
  "task_A = \<lparr> t_id = 1, title = ''A'', details = Some [], category = Some ''home'',
     priority = ''Medium'', due_date = ''2025-09-04'', is_done = 0, order_index = 1,
     created_at = ''2025-09-01T08:00:00'', updated_at = ''2025-09-01T08:00:00'' \<rparr>"

definition task_B :: task where
  "task_B = \<lparr> t_id = 2, title = ''B'', details = Some [], category = Some ''work'',
     priority = ''High'', due_date = ''2025-09-05'', is_done = 0, order_index = 2,
     created_at = ''2025-09-01T08:00:01'', updated_at = ''2025-09-01T08:00:01'' \<rparr>"

definition task_C :: task where
  "task_C = \<lparr> t_id = 3, title = ''C'', details = Some [], category = Some ''HOME page'',
     priority = ''Medium'', due_date = ''2025-09-07'', is_done = 0, order_index = 3,
     created_at = ''2025-09-01T08:00:02'', updated_at = ''2025-09-01T08:00:02'' \<rparr>"

definition task_D :: task where
  "task_D = \<lparr> t_id = 4, title = ''D'', details = None, category = None,
     priority = ''Low'', due_date = [], is_done = 1, order_index = 4,
     created_at = ''2025-09-01T08:00:03'', updated_at = ''2025-09-02T09:00:00'' \<rparr>"

definition store4 :: store where
  "store4 = \<lparr> rows = [task_A, task_B, task_C, task_D], seq = 4 \<rparr>"

definition ui_active :: ui_state where
  "ui_active = \<lparr> var_search = [], var_filter_status = StatusActive,
     var_filter_priority = All_entries, var_filter_category = All_entries,
     sort_by = Col_order_index, sort_desc = False \<rparr>"

definition ui_all :: ui_state where
  "ui_all = ui_active\<lparr> var_filter_status := StatusAll \<rparr>"

definition ui_wild :: ui_state where
  "ui_wild = ui_all\<lparr> var_search := ''a_c'' \<rparr>"

definition task_abc :: task where
  "task_abc = \<lparr> t_id = 1, title = ''abc'', details = Some [], category = Some [],
     priority = ''Medium'', due_date = [], is_done = 0, order_index = 1,
     created_at = ''2025-09-01T08:00:00'', updated_at = ''2025-09-01T08:00:00'' \<rparr>"

definition store_abc :: store where
  "store_abc = \<lparr> rows = [task_abc], seq = 1 \<rparr>"

definition ui_hom :: ui_state where
  "ui_hom = ui_active\<lparr> var_search := '' hom '', var_filter_priority := Entry ''Medium'' \<rparr>"

definition ui_priority :: ui_state where
  "ui_priority = ui_all\<lparr> sort_by := Col_priority \<rparr>"

definition clock0 :: "nat \<Rightarrow> string" where
  "clock0 k = ''2025-09-05T10:00:00''"

definition dialog_tomorrow :: task_dialog where
  "dialog_tomorrow =
     \<lparr> var_title = ''Pay rent'', var_details = [], var_category = ''home'',
       var_priority = ''Medium'', var_due = ''tomorrow'' \<rparr>"

definition store_tomorrow :: store where
  "store_tomorrow =
     \<lparr> rows =
         [\<lparr> t_id = 1, title = ''Pay rent'', details = Some [], category = Some ''home'',
            priority = ''Medium'', due_date = ''tomorrow'', is_done = 0, order_index = 1,
            created_at = ''2025-09-05T10:00:00'', updated_at = ''2025-09-05T10:00:00'' \<rparr>],
       seq = 1 \<rparr>"

definition store_null :: store where
  "store_null =
     \<lparr> rows =
         [\<lparr> t_id = 1, title = '' Pay rent '', details = None, category = Some ''home'',
            priority = ''High'', due_date = ''2025-09-06'', is_done = 0, order_index = 1,
            created_at = ''2025-09-05T10:00:00'', updated_at = ''2025-09-05T10:00:00'' \<rparr>],
       seq = 1 \<rparr>"

definition store3 :: store where
  "store3 = \<lparr> rows = [task_A, task_B, task_C], seq = 3 \<rparr>"

definition csv_short_row :: csv_file where
  "csv_short_row =
     [[''title'', ''due_date''], [''Buy milk'', ''2025-09-06''], [''Call Bob'']]"

definition csv_done :: csv_file where
  "csv_done =
     [[''is_done'', ''id'', ''priority'', ''title'', ''due_date''],
      [''1'', ''77'', ''urgent'', '' Buy milk '', ''2025-02-30'']]"

definition store_max :: store where
  "store_max =
     \<lparr> rows =
         [\<lparr> t_id = 1, title = ''a'', details = Some [], category = Some [],
            priority = ''Medium'', due_date = [], is_done = 0,
            order_index = 9223372036854775807,
            created_at = ''2025-09-01T08:00:00'', updated_at = ''2025-09-01T08:00:00'' \<rparr>],
       seq = 1 \<rparr>"

section \<open>Creating tasks\<close>

lemma sql_max_Nil_iff: "sql_max xs = None \<longleftrightarrow> xs = []"
  by (cases xs) (auto split: option.splits)

lemma sql_max_ge: "x \<in> set xs \<Longrightarrow> \<exists>m. sql_max xs = Some m \<and> x \<le> m"
  by (induction xs) (auto split: option.splits simp: sql_max_Nil_iff)

lemma sql_max_Max: "xs \<noteq> [] \<Longrightarrow> sql_max xs = Some (Max (set xs))"
proof (induction xs)
  case Nil
  then show ?case by simp
next
  case (Cons x xs)
  show ?case
  proof (cases "xs = []")
    case True
    then show ?thesis by simp
  next
    case False
    with Cons.IH have "sql_max xs = Some (Max (set xs))" by simp
    with False show ?thesis by simp
  qed
qed

lemma sql_max_snoc_upto:
  "sql_max (xs @ [x]) = Some x" if "\<forall>y \<in> set xs. y \<le> x"
  using that by (induction xs) (auto simp: max_def)

lemma next_rowid_fresh: "r \<in> set (rows s) \<Longrightarrow> t_id r < next_rowid s"
proof -
  assume "r \<in> set (rows s)"
  then have "t_id r \<in> set (map t_id (rows s))" by simp
  from sql_max_ge [OF this] obtain m
    where "sql_max (map t_id (rows s)) = Some m" and "t_id r \<le> m" by blast
  then show ?thesis by (simp add: next_rowid_def coalesce_def)
qed

lemma sql_max_upto: "sql_max [1..k] = (if k < 1 then None else Some k)"
proof (cases "k < 1")
  case True
  then show ?thesis by simp
next
  case False
  then have "[1..k] = [1..k - 1] @ [k]" by (simp add: upto_rec2)
  moreover have "sql_max ([1..k - 1] @ [k]) = Some k"
    by (rule sql_max_snoc_upto) simp
  ultimately show ?thesis using False by simp
qed

lemma create_Inr:
  assumes "pri \<in> set PRIORITIES"
  shows "create now ttl det cat pri due s =
     Inr (s\<lparr> rows := rows s @
              [\<lparr> t_id = next_rowid s, title = ttl, details = det, category = cat, priority = pri,
                 due_date = (case due of None \<Rightarrow> [] | Some d \<Rightarrow> d), is_done = 0,
                 order_index = sql_plus_one (coalesce (sql_max (map order_index (rows s))) 0),
                 created_at = now, updated_at = now \<rparr>],
             seq := next_rowid s \<rparr>, next_rowid s)"
  using assms by (simp add: create_def Let_def)

lemma sql_max_less:
  "\<forall>x \<in> set xs. x < b \<Longrightarrow> 0 < b \<Longrightarrow> coalesce (sql_max xs) 0 < b"
  by (cases "xs = []") (auto simp: coalesce_def sql_max_Max)

lemma next_order_index:
  assumes "\<forall>r \<in> set rs. order_index r < INT64_MAX"
  shows "sql_plus_one (coalesce (sql_max (map order_index rs)) 0) =
     (if rs = [] then 1 else Max (order_index ` set rs) + 1)"
proof -
  from assms have "coalesce (sql_max (map order_index rs)) 0 < INT64_MAX"
    by (intro sql_max_less) (auto simp: INT64_MAX_def)
  then show ?thesis
    by (simp add: sql_plus_one_def coalesce_def sql_max_Max)
qed

lemma create_all_order:
  "\<forall>a \<in> set as. a_priority a \<in> set PRIORITIES \<Longrightarrow> 0 \<le> k \<Longrightarrow>
   k + int (length as) \<le> INT64_MAX \<Longrightarrow>
   map order_index (rows s) = [1..k] \<Longrightarrow>
   \<exists>s'. create_all as s = Inr s' \<and> map order_index (rows s') = [1..k + int (length as)]"
proof (induction as arbitrary: s k)
  case Nil
  then show ?case by simp
next
  case (Cons a as)
  let ?r = "create (a_now a) (a_title a) (a_details a) (a_category a) (a_priority a)
              (a_due_date a) s"
  from Cons.prems(3) have k: "k < INT64_MAX" by simp
  with Cons.prems(2) have "sql_plus_one (coalesce (sql_max [1..k]) 0) = k + 1"
    by (simp add: sql_plus_one_def sql_max_upto coalesce_def)
  with Cons.prems obtain s1 i where c: "?r = Inr (s1, i)"
    and o: "map order_index (rows s1) = [1..k] @ [k + 1]"
    by (auto simp: create_def Let_def)
  from Cons.prems(2) have "[1..k + 1] = [1..k] @ [k + 1]" by (simp add: upto_rec2)
  with o have m: "map order_index (rows s1) = [1..k + 1]" by simp
  from Cons.prems(2,3) have "0 \<le> k + 1" "k + 1 + int (length as) \<le> INT64_MAX"
    by simp_all
  from Cons.IH [OF _ this m] Cons.prems(1) obtain s' where
    "create_all as s1 = Inr s'" "map order_index (rows s') = [1..k + 1 + int (length as)]"
    by auto
  with c show ?case by (simp add: algebra_simps)
qed

text \<open>
  Claim C1, within the 64-bit range of SQLite: the row id to be assigned is not past the
  largest integer, and every \<^verbatim>\<open>order_index\<close> of the table is below the largest
  integer, so that \<^verbatim>\<open>MAX + 1\<close> is an integer. Then, when the priority passes the
  table's \<^verbatim>\<open>CHECK\<close> constraint, \<^verbatim>\<open>create\<close> appends exactly one row \<open>r\<close> to the
  table: its \<^verbatim>\<open>order_index\<close> is the maximum of the existing ones plus 1 (1 on an empty
  table), its \<^verbatim>\<open>created_at\<close> and \<^verbatim>\<open>updated_at\<close> are the clock reading, its id is
  new in the table and is the value returned. And \<open>N\<close> calls in sequence on an empty
  table, each with a priority of the enumeration, succeed and leave the
  \<^verbatim>\<open>order_index\<close> values \<open>1, \<dots>, N\<close> in this order: distinct and increasing.
\<close>

theorem create_order_index:
  "(pri \<in> set PRIORITIES \<and> (\<forall>r' \<in> set (rows s). order_index r' < INT64_MAX) \<and>
    next_rowid s \<le> INT64_MAX \<longrightarrow>
      (\<exists>r. create now ttl det cat pri due s =
              Inr (s\<lparr> rows := rows s @ [r], seq := t_id r \<rparr>, t_id r) \<and>
           order_index r =
             (if rows s = [] then 1 else Max (order_index ` set (rows s)) + 1) \<and>
           created_at r = now \<and> updated_at r = now \<and>
           (\<forall>r' \<in> set (rows s). t_id r' \<noteq> t_id r))) \<and>
   (rows s = [] \<and> (\<forall>a \<in> set as. a_priority a \<in> set PRIORITIES) \<and>
    max (seq s) 0 + int (length as) \<le> INT64_MAX \<longrightarrow>
      (\<exists>s'. create_all as s = Inr s' \<and>
            map order_index (rows s') = [1..int (length as)] \<and>
            length (rows s') = length as \<and>
            distinct (map order_index (rows s')) \<and>
            sorted_wrt (<) (map order_index (rows s'))))"
  (is "(?HA \<longrightarrow> ?A) \<and> (?HB \<longrightarrow> ?B)")
proof (intro conjI impI)
  assume h: ?HA
  then have p: "pri \<in> set PRIORITIES" by simp
  let ?r = "\<lparr> t_id = next_rowid s, title = ttl, details = det, category = cat, priority = pri,
              due_date = (case due of None \<Rightarrow> [] | Some d \<Rightarrow> d), is_done = 0,
              order_index = sql_plus_one (coalesce (sql_max (map order_index (rows s))) 0),
              created_at = now, updated_at = now \<rparr>"
  have "create now ttl det cat pri due s =
          Inr (s\<lparr> rows := rows s @ [?r], seq := t_id ?r \<rparr>, t_id ?r)"
    using create_Inr [OF p] by simp
  moreover from h have "order_index ?r =
      (if rows s = [] then 1 else Max (order_index ` set (rows s)) + 1)"
    using next_order_index [of "rows s"] by simp
  moreover have "\<forall>r' \<in> set (rows s). t_id r' \<noteq> t_id ?r"
    using next_rowid_fresh [of _ s] by fastforce
  ultimately show ?A
    by (intro exI [of _ ?r]) simp
next
  assume a: ?HB
  then have "map order_index (rows s) = [1..0]" by simp
  moreover from a have "0 + int (length as) \<le> INT64_MAX" by linarith
  ultimately obtain s' where
    s': "create_all as s = Inr s'" "map order_index (rows s') = [1..int (length as)]"
    using create_all_order [of as 0 s] a by auto
  from s'(2) have "length (map order_index (rows s')) = length [1..int (length as)]"
    by simp
  then have "length (rows s') = length as" by simp
  moreover have "distinct [1..int (length as)]" by simp
  moreover have "sorted_wrt (<) [1..int (length as)]" by (simp add: sorted_wrt_upto)
  ultimately show ?B
    using s' by auto
qed

theorem create_order_index_witness:
  "''High'' \<in> set PRIORITIES \<and> list_all (\<lambda>r'. order_index r' < INT64_MAX) (rows store2) \<and>
   next_rowid store2 \<le> INT64_MAX \<and> rows store0 = [] \<and>
   list_all (\<lambda>a. a_priority a \<in> set PRIORITIES) args3 \<and>
   max (seq store0) 0 + int (length args3) \<le> INT64_MAX \<and>
   (\<exists>r. create ''2025-09-05T10:00:00'' ''t'' None None ''High'' None store2 =
           Inr (store2\<lparr> rows := rows store2 @ [r], seq := t_id r \<rparr>, t_id r) \<and>
        t_id r = 3 \<and> order_index r = 3 \<and> created_at r = ''2025-09-05T10:00:00'' \<and>
        updated_at r = ''2025-09-05T10:00:00'') \<and>
   (\<exists>s'. create_all args3 store0 = Inr s' \<and> map order_index (rows s') = [1, 2, 3])"
proof -
  have h1: "''High'' \<in> set PRIORITIES \<and> (\<forall>r' \<in> set (rows store2). order_index r' < INT64_MAX) \<and>
      next_rowid store2 \<le> INT64_MAX"
    by (simp add: PRIORITIES_def store2_def INT64_MAX_def next_rowid_def coalesce_def)
  have h2: "rows store0 = [] \<and> (\<forall>a \<in> set args3. a_priority a \<in> set PRIORITIES) \<and>
      max (seq store0) 0 + int (length args3) \<le> INT64_MAX"
    by (simp add: store0_def args3_def PRIORITIES_def INT64_MAX_def)
  have l: "[1..int (length args3)] = [1, 2, 3]"
    by (simp add: args3_def upto_rec1)
  have m: "next_rowid store2 = 3" "rows store2 \<noteq> []" "Max (order_index ` set (rows store2)) = 2"
    by (simp_all add: store2_def next_rowid_def coalesce_def)
  from create_order_index
    [of "''High''" store2 "''2025-09-05T10:00:00''" "''t''" None None None] h1
  obtain r where r: "create ''2025-09-05T10:00:00'' ''t'' None None ''High'' None store2 =
           Inr (store2\<lparr> rows := rows store2 @ [r], seq := t_id r \<rparr>, t_id r)"
    "order_index r = (if rows store2 = [] then 1 else Max (order_index ` set (rows store2)) + 1)"
    "created_at r = ''2025-09-05T10:00:00''" "updated_at r = ''2025-09-05T10:00:00''"
    by blast
  from r(1) have "t_id r = next_rowid store2"
    using create_Inr [of "''High''" "''2025-09-05T10:00:00''" "''t''" None None None store2] h1
    by simp
  with m have i: "t_id r = 3" by simp
  from r(2) m have o: "order_index r = 3" by simp
  from create_order_index
    [of "''High''" store0 "''2025-09-05T10:00:00''" "''t''" None None None args3] h2
  obtain s' where "create_all args3 store0 = Inr s'"
    "map order_index (rows s') = [1..int (length args3)]"
    by blast
  with l have c: "\<exists>s'. create_all args3 store0 = Inr s' \<and> map order_index (rows s') = [1, 2, 3]"
    by auto
  from r i o have e: "\<exists>r. create ''2025-09-05T10:00:00'' ''t'' None None ''High'' None store2 =
           Inr (store2\<lparr> rows := rows store2 @ [r], seq := t_id r \<rparr>, t_id r) \<and>
        t_id r = 3 \<and> order_index r = 3 \<and> created_at r = ''2025-09-05T10:00:00'' \<and>
        updated_at r = ''2025-09-05T10:00:00''"
    by blast
  from h1 h2 have "''High'' \<in> set PRIORITIES"
    "list_all (\<lambda>r'. order_index r' < INT64_MAX) (rows store2)"
    "next_rowid store2 \<le> INT64_MAX" "rows store0 = []"
    "list_all (\<lambda>a. a_priority a \<in> set PRIORITIES) args3"
    "max (seq store0) 0 + int (length args3) \<le> INT64_MAX"
    by (simp_all add: list_all_iff)
  with e c show ?thesis by blast
qed

text \<open>
  At the edge of the range the rule ends: on a table whose largest \<^verbatim>\<open>order_index\<close> is
  the largest integer, \<^verbatim>\<open>create\<close> stores the \<^verbatim>\<open>REAL\<close> \<open>2\<^sup>6\<^sup>3\<close>, and the next
  \<^verbatim>\<open>create\<close> stores the same value once more.
\<close>

lemma order_index_overflow:
  "map order_index (rows store_max) = [9223372036854775807] \<and>
   (\<exists>s1 i s2 j.
      create ''2025-09-05T10:00:00'' ''t'' None None ''Low'' None store_max = Inr (s1, i) \<and>
      create ''2025-09-05T10:00:01'' ''u'' None None ''Low'' None s1 = Inr (s2, j) \<and>
      map order_index (rows s2) =
        [9223372036854775807, 9223372036854775808, 9223372036854775808])"
  by (simp add: store_max_def create_def sql_plus_one_def INT64_MAX_def coalesce_def
      next_rowid_def PRIORITIES_def Let_def)

section \<open>Updating a task\<close>

lemma update_no_fields: "update now i no_fields s = Inr s"
  by (simp add: update_def)

lemma update_Inr:
  assumes "f \<noteq> no_fields"
    and "binds f"
    and "case f_priority f of None \<Rightarrow> True | Some p \<Rightarrow> p \<in> set PRIORITIES"
  shows "update now i f s =
     Inr (s\<lparr> rows := map (\<lambda>r. if t_id r = i then set_fields (f\<lparr> f_updated_at := Some now \<rparr>) r
                               else r) (rows s) \<rparr>)"
  using assms by (simp add: update_def Let_def binds_def split: option.splits)

text \<open>
  An integer argument outside the 64-bit range: \<^verbatim>\<open>update\<close> raises and writes nothing.
\<close>

lemma update_overflow:
  "update ''2025-09-05T10:00:00'' 1 (no_fields\<lparr> f_order_index := Some 9223372036854775808 \<rparr>)
     store2 = Inl OverflowError"
  by (simp add: update_def no_fields_def binds_def int64_def INT64_MAX_def)

text \<open>
  Claim C2. With no field supplied \<^verbatim>\<open>update\<close> returns the store as it is, whatever
  the id: no row and no field changes, \<^verbatim>\<open>updated_at\<close> included. With a non-empty
  field set whose integers, like the id, are of the signed 64-bit range that a
  parameter of a statement can hold, and whose priority, when supplied, passes the
  \<^verbatim>\<open>CHECK\<close> constraint,
  \<^verbatim>\<open>update\<close> succeeds; a row with another id is unchanged; a row with the given id
  keeps its id, takes the supplied value in each supplied column, keeps its value in
  each column not supplied, and has \<^verbatim>\<open>updated_at\<close> set to the clock reading.
\<close>

theorem update_frame:
  "update now i no_fields s = Inr s \<and>
   (f \<noteq> no_fields \<and> int64 i \<and> binds f \<and>
    (case f_priority f of None \<Rightarrow> True | Some p \<Rightarrow> p \<in> set PRIORITIES) \<longrightarrow>
      (\<exists>s'. update now i f s = Inr s' \<and> seq s' = seq s \<and>
         length (rows s') = length (rows s) \<and>
         (\<forall>k < length (rows s).
            (t_id (rows s ! k) \<noteq> i \<longrightarrow> rows s' ! k = rows s ! k) \<and>
            (t_id (rows s ! k) = i \<longrightarrow>
               t_id (rows s' ! k) = i \<and>
               updated_at (rows s' ! k) = now \<and>
               title (rows s' ! k) =
                 (case f_title f of None \<Rightarrow> title (rows s ! k) | Some v \<Rightarrow> v) \<and>
               details (rows s' ! k) =
                 (case f_details f of None \<Rightarrow> details (rows s ! k) | Some v \<Rightarrow> Some v) \<and>
               category (rows s' ! k) =
                 (case f_category f of None \<Rightarrow> category (rows s ! k) | Some v \<Rightarrow> Some v) \<and>
               priority (rows s' ! k) =
                 (case f_priority f of None \<Rightarrow> priority (rows s ! k) | Some v \<Rightarrow> v) \<and>
               due_date (rows s' ! k) =
                 (case f_due_date f of None \<Rightarrow> due_date (rows s ! k) | Some v \<Rightarrow> v) \<and>
               is_done (rows s' ! k) =
                 (case f_is_done f of None \<Rightarrow> is_done (rows s ! k) | Some v \<Rightarrow> v) \<and>
               order_index (rows s' ! k) =
                 (case f_order_index f of None \<Rightarrow> order_index (rows s ! k) | Some v \<Rightarrow> v) \<and>
               created_at (rows s' ! k) =
                 (case f_created_at f of None \<Rightarrow> created_at (rows s ! k) | Some v \<Rightarrow> v)))))"
  (is "?A \<and> (?H \<longrightarrow> ?C)")
proof (intro conjI impI)
  show "update now i no_fields s = Inr s"
    by (rule update_no_fields)
next
  assume a: "f \<noteq> no_fields \<and> int64 i \<and> binds f \<and>
    (case f_priority f of None \<Rightarrow> True | Some p \<Rightarrow> p \<in> set PRIORITIES)"
  let ?g = "\<lambda>r. if t_id r = i then set_fields (f\<lparr> f_updated_at := Some now \<rparr>) r else r"
  let ?s' = "s\<lparr> rows := map ?g (rows s) \<rparr>"
  from a have u: "update now i f s = Inr ?s'"
    by (intro update_Inr) simp_all
  have "\<forall>k < length (rows s).
      (t_id (rows s ! k) \<noteq> i \<longrightarrow> rows ?s' ! k = rows s ! k) \<and>
      (t_id (rows s ! k) = i \<longrightarrow> rows ?s' ! k = set_fields (f\<lparr> f_updated_at := Some now \<rparr>) (rows s ! k))"
    by simp
  then show ?C
    using u by (intro exI [of _ ?s']) (simp add: set_fields_def)
qed

theorem update_frame_witness:
  "no_fields\<lparr> f_is_done := Some 1 \<rparr> \<noteq> no_fields \<and> int64 1 \<and>
   binds (no_fields\<lparr> f_is_done := Some 1 \<rparr>) \<and>
   (case f_priority (no_fields\<lparr> f_is_done := Some 1 \<rparr>) of None \<Rightarrow> True
    | Some p \<Rightarrow> p \<in> set PRIORITIES) \<and>
   update ''2025-09-05T10:00:00'' 1 no_fields store2 = Inr store2 \<and>
   (\<exists>s'. update ''2025-09-05T10:00:00'' 1 (no_fields\<lparr> f_is_done := Some 1 \<rparr>) store2 = Inr s' \<and>
      rows s' ! 1 = rows store2 ! 1 \<and>
      is_done (rows s' ! 0) = 1 \<and> title (rows s' ! 0) = ''a'' \<and>
      updated_at (rows s' ! 0) = ''2025-09-05T10:00:00'')"
proof -
  have h: "no_fields\<lparr> f_is_done := Some 1 \<rparr> \<noteq> no_fields \<and> int64 1 \<and>
    binds (no_fields\<lparr> f_is_done := Some 1 \<rparr>) \<and>
    (case f_priority (no_fields\<lparr> f_is_done := Some 1 \<rparr>) of None \<Rightarrow> True
     | Some p \<Rightarrow> p \<in> set PRIORITIES)"
    by (simp add: no_fields_def binds_def int64_def INT64_MAX_def)
  have l: "length (rows store2) = 2" "t_id (rows store2 ! 0) = 1" "t_id (rows store2 ! 1) = 2"
    "title (rows store2 ! 0) = ''a''"
    by (simp_all add: store2_def)
  from update_frame
    [of "''2025-09-05T10:00:00''" 1 store2 "no_fields\<lparr> f_is_done := Some 1 \<rparr>"] h
  obtain s' where s': "update ''2025-09-05T10:00:00'' 1 (no_fields\<lparr> f_is_done := Some 1 \<rparr>) store2 = Inr s'"
    and all: "\<forall>k < length (rows store2).
            (t_id (rows store2 ! k) \<noteq> 1 \<longrightarrow> rows s' ! k = rows store2 ! k) \<and>
            (t_id (rows store2 ! k) = 1 \<longrightarrow>
               updated_at (rows s' ! k) = ''2025-09-05T10:00:00'' \<and>
               title (rows s' ! k) =
                 (case f_title (no_fields\<lparr> f_is_done := Some 1 \<rparr>) of None \<Rightarrow> title (rows store2 ! k) | Some v \<Rightarrow> v) \<and>
               is_done (rows s' ! k) =
                 (case f_is_done (no_fields\<lparr> f_is_done := Some 1 \<rparr>) of None \<Rightarrow> is_done (rows store2 ! k) | Some v \<Rightarrow> v))"
    by auto
  from all l have "rows s' ! 1 = rows store2 ! 1" by simp
  moreover from all [rule_format, of 0] l have "is_done (rows s' ! 0) = 1 \<and>
      title (rows s' ! 0) = ''a'' \<and> updated_at (rows s' ! 0) = ''2025-09-05T10:00:00''"
    by (simp add: no_fields_def)
  moreover have "update ''2025-09-05T10:00:00'' 1 no_fields store2 = Inr store2"
    using update_frame [of "''2025-09-05T10:00:00''" 1 store2 no_fields] by simp
  ultimately show ?thesis using h s' by blast
qed

section \<open>The dialog\<close>

text \<open>
  Claim C9, at a dialog in which the user has selected \<^verbatim>\<open>High\<close>: the task that
  \<^verbatim>\<open>on_add\<close> inserts, and the task that \<^verbatim>\<open>on_edit\<close> rewrites, have the priority
  \<^verbatim>\<open>Medium\<close>, not the selected one.
\<close>

theorem dialog_priority_not_saved:
  "var_priority dialog_high = ''High'' \<and>
   (\<exists>s'. on_add ''2025-09-05T10:00:00'' dialog_high store0 = Inr s' \<and>
      map title (rows s') = [''Pay rent''] \<and> map priority (rows s') = [''Medium'']) \<and>
   map priority (rows store2) = [''Medium'', ''High''] \<and>
   (\<exists>s'. on_edit ''2025-09-05T10:00:00'' 2 dialog_high store2 = Inr s' \<and>
      map t_id (rows s') = [1, 2] \<and> map priority (rows s') = [''Medium'', ''Medium''])"
  by (simp add: dialog_high_def store0_def store2_def on_add_def on_edit_def on_ok_def
      strip_def is_space_def create_def update_def set_fields_def no_fields_def binds_def
      sql_plus_one_def INT64_MAX_def next_rowid_def coalesce_def PRIORITIES_def Let_def)

section \<open>Dates as text\<close>



















section \<open>Statistics of the table\<close>




section \<open>The query\<close>

lemma sql_less_irrefl: "\<not> sql_less a a"
  by (cases a) simp_all

lemma sql_less_trans: "sql_less a b \<Longrightarrow> sql_less b c \<Longrightarrow> sql_less a c"
  by (cases a; cases b; cases c) auto

lemma sql_less_total: "a \<noteq> b \<Longrightarrow> sql_less a b \<or> sql_less b a"
  by (cases a; cases b) auto

lemma row_le_total: "row_le ts a b \<or> row_le ts b a"
proof (induction ts)
  case Nil
  then show ?case by simp
next
  case (Cons t ts)
  obtain c desc where t: "t = (c, desc)" by (cases t)
  show ?case
    using Cons.IH sql_less_total [of "col c a" "col c b"] by (auto simp: t)
qed

lemma row_le_trans: "row_le ts a b \<Longrightarrow> row_le ts b c \<Longrightarrow> row_le ts a c"
proof (induction ts)
  case Nil
  then show ?case by simp
next
  case (Cons t ts)
  obtain k desc where t: "t = (k, desc)" by (cases t)
  let ?lt = "\<lambda>x y. if desc then sql_less y x else sql_less x y"
  have lt_trans: "?lt x y \<Longrightarrow> ?lt y z \<Longrightarrow> ?lt x z" for x y z
    by (auto intro: sql_less_trans split: if_splits)
  have lt_irrefl: "\<not> ?lt x x" for x
    by (simp add: sql_less_irrefl)
  have unfold: "row_le (t # ts) x y = (if col k x = col k y then row_le ts x y
      else ?lt (col k x) (col k y))" for x y
    by (simp add: t)
  show ?case
  proof (cases "col k a = col k b")
    case ab: True
    with Cons.prems(1) have 1: "row_le ts a b" by (simp add: unfold)
    show ?thesis
    proof (cases "col k b = col k c")
      case True
      with Cons.prems(2) have "row_le ts b c" by (simp add: unfold)
      with 1 have "row_le ts a c" by (rule Cons.IH)
      moreover from ab True have "col k a = col k c" by simp
      ultimately show ?thesis by (simp add: unfold)
    next
      case False
      with Cons.prems(2) have "?lt (col k b) (col k c)" by (simp add: unfold)
      with ab have "?lt (col k a) (col k c)" by (auto split: if_splits)
      moreover from ab False have "col k a \<noteq> col k c" by simp
      ultimately show ?thesis by (simp add: unfold)
    qed
  next
    case ab: False
    with Cons.prems(1) have 1: "?lt (col k a) (col k b)" by (simp add: unfold)
    show ?thesis
    proof (cases "col k b = col k c")
      case True
      with 1 have "?lt (col k a) (col k c)" by (auto split: if_splits)
      moreover from ab True have "col k a \<noteq> col k c" by simp
      ultimately show ?thesis by (simp add: unfold)
    next
      case False
      with Cons.prems(2) have 2: "?lt (col k b) (col k c)" by (simp add: unfold)
      from lt_trans [OF 1 2] have 3: "?lt (col k a) (col k c)" .
      with lt_irrefl [of "col k a"] have "col k a \<noteq> col k c" by metis
      with 3 show ?thesis by (simp add: unfold)
    qed
  qed
qed

lemma set_insert_row: "set (insert_row ts r xs) = insert r (set xs)"
  by (induction xs) auto

lemma length_insert_row: "length (insert_row ts r xs) = Suc (length xs)"
  by (induction xs) auto

lemma sorted_insert_row:
  "sorted_wrt (row_le ts) xs \<Longrightarrow> sorted_wrt (row_le ts) (insert_row ts r xs)"
proof (induction xs)
  case Nil
  then show ?case by simp
next
  case (Cons x xs)
  show ?case
  proof (cases "row_le ts r x")
    case True
    with Cons.prems have "\<forall>y \<in> set xs. row_le ts r y"
      by (auto intro: row_le_trans)
    with True Cons.prems show ?thesis by simp
  next
    case False
    with row_le_total [of ts r x] have "row_le ts x r" by simp
    with False Cons show ?thesis by (auto simp: set_insert_row)
  qed
qed

lemma set_order_rows: "set (order_rows ts rs) = set rs"
  by (induction rs) (simp_all add: order_rows_def set_insert_row)

lemma length_order_rows: "length (order_rows ts rs) = length rs"
  by (induction rs) (simp_all add: order_rows_def length_insert_row)

lemma sorted_order_rows: "sorted_wrt (row_le ts) (order_rows ts rs)"
  by (induction rs) (simp_all add: order_rows_def sorted_insert_row)

lemma like_match_percent: "like_match ''%'' t"
  by (induction t) simp_all

lemma like_match_prefix:
  "CHR ''%'' \<notin> set q \<Longrightarrow> CHR ''_'' \<notin> set q \<Longrightarrow>
   like_match (q @ ''%'') t \<longleftrightarrow> prefix (map ascii_lower q) (map ascii_lower t)"
proof (induction q arbitrary: t)
  case Nil
  then show ?case by (simp add: like_match_percent)
next
  case (Cons p ps)
  then show ?case by (cases t) auto
qed

lemma like_match_contains:
  "CHR ''%'' \<notin> set q \<Longrightarrow> CHR ''_'' \<notin> set q \<Longrightarrow>
   like_match (''%'' @ q @ ''%'') t \<longleftrightarrow> contains_ci q t"
proof (induction t)
  case Nil
  then show ?case using like_match_prefix [of q "[]"] by (simp add: contains_ci_def)
next
  case (Cons c cs)
  then show ?case using like_match_prefix [of q "c # cs"] by (simp add: contains_ci_def)
qed

lemma c_string_id: "CHR 0x00 \<notin> set t \<Longrightarrow> c_string t = t"
  by (auto simp: c_string_def takeWhile_eq_all_conv)

lemma like_contains:
  assumes "CHR ''%'' \<notin> set q" "CHR ''_'' \<notin> set q" "CHR 0x00 \<notin> set q"
  shows "like (''%'' @ q @ ''%'') t \<longleftrightarrow> contains_ci q (c_string t)"
proof -
  from assms(3) have "c_string (''%'' @ q @ ''%'') = ''%'' @ q @ ''%''"
    by (intro c_string_id) simp
  with assms(1,2) show ?thesis
    by (simp add: like_def like_match_contains del: append.simps)
qed

lemma set_fetch:
  "set (fetch wh ob s) = {r \<in> set (rows s). list_all (\<lambda>c. eval_cond c r) wh}"
  by (simp add: fetch_def set_order_rows)

lemma sorted_wrt_nth:
  "sorted_wrt P xs \<Longrightarrow> i < j \<Longrightarrow> j < length xs \<Longrightarrow> P (xs ! i) (xs ! j)"
  by (simp add: sorted_wrt_iff_nth_less)

text \<open>
  Claim C3, as the code has it. For a search text whose pattern is within the length that
  SQLite accepts for \<^verbatim>\<open>LIKE\<close>, a row is in the result of the query exactly when it
  is a row of the table and satisfies every active filter: the search filter when the
  search text, stripped of surrounding whitespace, is not empty; the status filter
  unless the status is all; the priority and the category filter unless the combobox
  shows the entry for all. With no active filter the list \<^verbatim>\<open>where\<close> is empty and every
  row is returned. The search filter is the disjunction of \<^verbatim>\<open>LIKE\<close> matches of the
  pattern \<^verbatim>\<open>%q%\<close> on \<^verbatim>\<open>title\<close>, \<^verbatim>\<open>details\<close> and \<^verbatim>\<open>category\<close>; when \<open>q\<close>
  contains none of \<^verbatim>\<open>%\<close>, \<^verbatim>\<open>_\<close> and the NUL character, such a match is the
  substring match, without regard to the case of ASCII letters, on the text of the
  column up to its first NUL character: on the three columns when they hold no NUL.
\<close>

theorem query_filter:
  "(utf8_length (''%'' @ strip (var_search ui) @ ''%'') \<le> LIKE_PATTERN_LIMIT \<longrightarrow>
      (r \<in> set (query_tasks ui s) \<longleftrightarrow>
         r \<in> set (rows s) \<and>
         (strip (var_search ui) = [] \<or>
          like (''%'' @ strip (var_search ui) @ ''%'') (title r) \<or>
          like_null (''%'' @ strip (var_search ui) @ ''%'') (details r) \<or>
          like_null (''%'' @ strip (var_search ui) @ ''%'') (category r)) \<and>
         (case var_filter_status ui of
            StatusActive \<Rightarrow> is_done r = 0 | StatusDone \<Rightarrow> is_done r = 1 | StatusAll \<Rightarrow> True) \<and>
         (case var_filter_priority ui of All_entries \<Rightarrow> True | Entry p \<Rightarrow> priority r = p) \<and>
         (case var_filter_category ui of All_entries \<Rightarrow> True | Entry c \<Rightarrow> category r = Some c))) \<and>
   (strip (var_search ui) = [] \<and> var_filter_status ui = StatusAll \<and>
    var_filter_priority ui = All_entries \<and> var_filter_category ui = All_entries \<longrightarrow>
      where_list ui = [] \<and> set (query_tasks ui s) = set (rows s)) \<and>
   (CHR ''%'' \<notin> set q \<and> CHR ''_'' \<notin> set q \<and> CHR 0x00 \<notin> set q \<and>
    utf8_length (''%'' @ q @ ''%'') \<le> LIKE_PATTERN_LIMIT \<longrightarrow>
      (like (''%'' @ q @ ''%'') t \<longleftrightarrow> contains_ci q (c_string t)) \<and>
      (CHR 0x00 \<notin> set t \<longrightarrow> (like (''%'' @ q @ ''%'') t \<longleftrightarrow> contains_ci q t)) \<and>
      (nul_free_text r \<longrightarrow>
         (eval_cond (Search_like (''%'' @ q @ ''%'')) r \<longleftrightarrow> search_substring q r)))"
  (is "(?HA \<longrightarrow> ?A) \<and> (?HB \<longrightarrow> ?B) \<and> (?HC \<longrightarrow> ?C)")
proof (intro conjI impI)
  show ?A
    by (auto simp: query_tasks_def set_fetch where_list_def Let_def
        split: status_filter.splits combo.splits)
next
  assume ?HB
  then show "where_list ui = []"
    by (simp add: where_list_def)
  then show "set (query_tasks ui s) = set (rows s)"
    by (simp add: query_tasks_def set_fetch)
next
  assume h: ?HC
  then have l: "like (''%'' @ q @ ''%'') u \<longleftrightarrow> contains_ci q (c_string u)" for u
    using like_contains [of q u] by simp
  show "like (''%'' @ q @ ''%'') t \<longleftrightarrow> contains_ci q (c_string t)"
    by (rule l)
  show "like (''%'' @ q @ ''%'') t \<longleftrightarrow> contains_ci q t" if "CHR 0x00 \<notin> set t"
    using l [of t] that by (simp add: c_string_id)
  show "eval_cond (Search_like (''%'' @ q @ ''%'')) r \<longleftrightarrow> search_substring q r"
    if "nul_free_text r"
    using l that
    by (auto simp: search_substring_def like_null_def nul_free_text_def c_string_id
        simp del: append.simps split: option.splits)
qed

text \<open>
  Claim C3 as stated fails on a search text with a wildcard of \<^verbatim>\<open>LIKE\<close>: the search
  \<^verbatim>\<open>a_c\<close> returns the task titled \<^verbatim>\<open>abc\<close>, in which \<^verbatim>\<open>a_c\<close> is no substring of
  any of the three columns.
\<close>

theorem query_filter_counterexample:
  "task_abc \<in> set (query_tasks ui_wild store_abc) \<and>
   var_search ui_wild = ''a_c'' \<and>
   \<not> search_substring (var_search ui_wild) task_abc"
  by (simp add: ui_wild_def ui_all_def ui_active_def store_abc_def task_abc_def
      query_tasks_def fetch_def where_list_def order_list_def order_rows_def strip_def
      is_space_def ascii_lower_def search_substring_def contains_ci_def like_def
      c_string_def)

theorem query_filter_witness:
  "strip (var_search ui_hom) = ''hom'' \<and>
   utf8_length (''%'' @ strip (var_search ui_hom) @ ''%'') \<le> LIKE_PATTERN_LIMIT \<and>
   CHR ''%'' \<notin> set ''hom'' \<and> CHR ''_'' \<notin> set ''hom'' \<and> CHR 0x00 \<notin> set ''hom'' \<and>
   CHR 0x00 \<notin> set ''HOME page'' \<and> nul_free_text task_C \<and>
   strip (var_search ui_all) = [] \<and> var_filter_status ui_all = StatusAll \<and>
   var_filter_priority ui_all = All_entries \<and> var_filter_category ui_all = All_entries \<and>
   set (query_tasks ui_all store4) = set (rows store4) \<and>
   task_C \<in> set (query_tasks ui_hom store4) \<and>
   task_B \<notin> set (query_tasks ui_hom store4) \<and>
   like ''%hom%'' ''HOME page'' \<and> contains_ci ''hom'' ''HOME page'' \<and>
   search_substring ''hom'' task_C"
proof -
  have h1: "strip (var_search ui_hom) = ''hom''" "CHR ''%'' \<notin> set ''hom''"
    "CHR ''_'' \<notin> set ''hom''" "CHR 0x00 \<notin> set ''hom''" "CHR 0x00 \<notin> set ''HOME page''"
    "nul_free_text task_C"
    by (simp_all add: ui_hom_def ui_active_def strip_def is_space_def nul_free_text_def
        task_C_def)
  have len: "utf8_length ''%hom%'' \<le> LIKE_PATTERN_LIMIT"
    by (simp add: utf8_length_def LIKE_PATTERN_LIMIT_def)
  have h2: "strip (var_search ui_all) = [] \<and> var_filter_status ui_all = StatusAll \<and>
      var_filter_priority ui_all = All_entries \<and> var_filter_category ui_all = All_entries"
    by (simp add: ui_all_def ui_active_def strip_def)
  have c: "contains_ci ''hom'' ''HOME page''"
    by (simp add: contains_ci_def ascii_lower_def)
  have u: "var_filter_status ui_hom = StatusActive" "var_filter_priority ui_hom = Entry ''Medium''"
    "var_filter_category ui_hom = All_entries"
    by (simp_all add: ui_hom_def ui_active_def)
  have m: "task_C \<in> set (rows store4)" "task_B \<in> set (rows store4)"
    "category task_C = Some ''HOME page''" "is_done task_C = 0" "priority task_C = ''Medium''"
    "priority task_B = ''High''"
    by (simp_all add: store4_def task_C_def task_B_def)
  note t = query_filter [of ui_hom task_C store4 "''hom''" "''HOME page''"]
  from query_filter [of ui_all task_C store4 "''hom''" "''HOME page''"] h2
  have 1: "set (query_tasks ui_all store4) = set (rows store4)"
    by blast
  from t h1 len have hc: "CHR ''%'' \<notin> set ''hom'' \<and> CHR ''_'' \<notin> set ''hom'' \<and>
      CHR 0x00 \<notin> set ''hom'' \<and> utf8_length (''%'' @ ''hom'' @ ''%'') \<le> LIKE_PATTERN_LIMIT"
    by simp
  from t hc h1(5) have "like (''%'' @ ''hom'' @ ''%'') ''HOME page'' \<longleftrightarrow>
      contains_ci ''hom'' ''HOME page''"
    by blast
  with c have 2: "like ''%hom%'' ''HOME page''" by simp
  from t hc h1(6) have "eval_cond (Search_like (''%'' @ ''hom'' @ ''%'')) task_C \<longleftrightarrow>
      search_substring ''hom'' task_C"
    by blast
  with 2 m have 5: "search_substring ''hom'' task_C"
    by (simp add: like_null_def)
  from h1(1) len have la: "utf8_length (''%'' @ strip (var_search ui_hom) @ ''%'') \<le>
      LIKE_PATTERN_LIMIT"
    by simp
  with t have "task_C \<in> set (query_tasks ui_hom store4) \<longleftrightarrow>
         task_C \<in> set (rows store4) \<and>
         (strip (var_search ui_hom) = [] \<or>
          like (''%'' @ strip (var_search ui_hom) @ ''%'') (title task_C) \<or>
          like_null (''%'' @ strip (var_search ui_hom) @ ''%'') (details task_C) \<or>
          like_null (''%'' @ strip (var_search ui_hom) @ ''%'') (category task_C)) \<and>
         (case var_filter_status ui_hom of
            StatusActive \<Rightarrow> is_done task_C = 0 | StatusDone \<Rightarrow> is_done task_C = 1
          | StatusAll \<Rightarrow> True) \<and>
         (case var_filter_priority ui_hom of All_entries \<Rightarrow> True
          | Entry p \<Rightarrow> priority task_C = p) \<and>
         (case var_filter_category ui_hom of All_entries \<Rightarrow> True
          | Entry c \<Rightarrow> category task_C = Some c)"
    by blast
  with h1(1) 2 u m have 3: "task_C \<in> set (query_tasks ui_hom store4)"
    by (simp add: like_null_def)
  from query_filter [of ui_hom task_B store4 "''hom''" "''HOME page''"] la
  have "task_B \<in> set (query_tasks ui_hom store4) \<longrightarrow>
      (case var_filter_priority ui_hom of All_entries \<Rightarrow> True | Entry p \<Rightarrow> priority task_B = p)"
    by blast
  with u m have 4: "task_B \<notin> set (query_tasks ui_hom store4)"
    by auto
  from h1 la h2 c 1 2 3 4 5 show ?thesis by blast
qed

lemma row_le_order_list:
  "row_le (order_list ui) a b \<longleftrightarrow>
     (if col (sort_by ui) a \<noteq> col (sort_by ui) b
      then (if sort_desc ui then sql_less (col (sort_by ui) b) (col (sort_by ui) a)
            else sql_less (col (sort_by ui) a) (col (sort_by ui) b))
      else order_index a < order_index b \<or> (order_index a = order_index b \<and> t_id a \<le> t_id b))"
  by (auto simp: order_list_def)

text \<open>
  Claim C4. The \<^verbatim>\<open>ORDER BY\<close> list of every query is the chosen column with the chosen
  direction, then \<^verbatim>\<open>order_index\<close> ascending, then \<^verbatim>\<open>id\<close> ascending. So of two rows
  of a result that differ in the chosen column the earlier one has the smaller value
  (the larger one when the direction is descending), and two rows that agree in the
  chosen column stand in the order of \<^verbatim>\<open>order_index\<close>, then \<^verbatim>\<open>id\<close>. A click on the
  heading of the current sort column flips the direction, so two clicks restore the
  state and the result of the query; a click on another heading selects that column,
  ascending, and a second click on it makes the direction descending.
\<close>

theorem query_order:
  "order_list ui = [(sort_by ui, sort_desc ui), (Col_order_index, False), (Col_id, False)] \<and>
   (\<forall>i j. i < j \<and> j < length (query_tasks ui s) \<longrightarrow>
      (col (sort_by ui) (query_tasks ui s ! i) \<noteq> col (sort_by ui) (query_tasks ui s ! j) \<longrightarrow>
         (if sort_desc ui
          then sql_less (col (sort_by ui) (query_tasks ui s ! j)) (col (sort_by ui) (query_tasks ui s ! i))
          else sql_less (col (sort_by ui) (query_tasks ui s ! i)) (col (sort_by ui) (query_tasks ui s ! j)))) \<and>
      (col (sort_by ui) (query_tasks ui s ! i) = col (sort_by ui) (query_tasks ui s ! j) \<longrightarrow>
         order_index (query_tasks ui s ! i) < order_index (query_tasks ui s ! j) \<or>
         (order_index (query_tasks ui s ! i) = order_index (query_tasks ui s ! j) \<and>
          t_id (query_tasks ui s ! i) \<le> t_id (query_tasks ui s ! j)))) \<and>
   (sort_by ui = c \<longrightarrow>
      sort_by_heading c ui = ui\<lparr> sort_desc := \<not> sort_desc ui \<rparr> \<and>
      sort_by_heading c (sort_by_heading c ui) = ui \<and>
      query_tasks (sort_by_heading c (sort_by_heading c ui)) s = query_tasks ui s) \<and>
   (sort_by ui \<noteq> c \<longrightarrow>
      sort_by_heading c ui = ui\<lparr> sort_by := c, sort_desc := False \<rparr> \<and>
      sort_by_heading c (sort_by_heading c ui) = ui\<lparr> sort_by := c, sort_desc := True \<rparr>)"
  (is "?A \<and> ?C \<and> (?HD \<longrightarrow> ?D) \<and> (?HE \<longrightarrow> ?E)")
proof (intro conjI impI)
  show ?A by (simp add: order_list_def)
  have sorted: "sorted_wrt (row_le (order_list ui)) (query_tasks ui s)"
    by (simp add: query_tasks_def fetch_def sorted_order_rows)
  show ?C
  proof (intro allI impI)
    fix i j
    assume "i < j \<and> j < length (query_tasks ui s)"
    then have "row_le (order_list ui) (query_tasks ui s ! i) (query_tasks ui s ! j)"
      using sorted_wrt_nth [OF sorted, of i j] by simp
    then show "(col (sort_by ui) (query_tasks ui s ! i) \<noteq> col (sort_by ui) (query_tasks ui s ! j) \<longrightarrow>
         (if sort_desc ui
          then sql_less (col (sort_by ui) (query_tasks ui s ! j)) (col (sort_by ui) (query_tasks ui s ! i))
          else sql_less (col (sort_by ui) (query_tasks ui s ! i)) (col (sort_by ui) (query_tasks ui s ! j)))) \<and>
      (col (sort_by ui) (query_tasks ui s ! i) = col (sort_by ui) (query_tasks ui s ! j) \<longrightarrow>
         order_index (query_tasks ui s ! i) < order_index (query_tasks ui s ! j) \<or>
         (order_index (query_tasks ui s ! i) = order_index (query_tasks ui s ! j) \<and>
          t_id (query_tasks ui s ! i) \<le> t_id (query_tasks ui s ! j)))"
      unfolding row_le_order_list by (simp split: if_splits)
  qed
next
  assume h: ?HD
  then show "sort_by_heading c ui = ui\<lparr> sort_desc := \<not> sort_desc ui \<rparr>"
    by (simp add: sort_by_heading_def)
  from h show twice: "sort_by_heading c (sort_by_heading c ui) = ui"
    by (simp add: sort_by_heading_def)
  show "query_tasks (sort_by_heading c (sort_by_heading c ui)) s = query_tasks ui s"
    by (simp only: twice)
next
  assume ?HE
  then show "sort_by_heading c ui = ui\<lparr> sort_by := c, sort_desc := False \<rparr>"
    by (simp add: sort_by_heading_def)
  then show "sort_by_heading c (sort_by_heading c ui) = ui\<lparr> sort_by := c, sort_desc := True \<rparr>"
    by (simp add: sort_by_heading_def)
qed

theorem query_order_witness:
  "query_tasks ui_priority store4 = [task_B, task_D, task_A, task_C] \<and>
   (2::nat) < 3 \<and> 3 < length (query_tasks ui_priority store4) \<and>
   col (sort_by ui_priority) (query_tasks ui_priority store4 ! 2) =
     col (sort_by ui_priority) (query_tasks ui_priority store4 ! 3) \<and>
   order_index (query_tasks ui_priority store4 ! 2) < order_index (query_tasks ui_priority store4 ! 3) \<and>
   sort_by ui_priority = Col_priority \<and> sort_by ui_priority \<noteq> Col_title \<and>
   sort_desc (sort_by_heading Col_priority ui_priority) \<and>
   query_tasks (sort_by_heading Col_priority ui_priority) store4 = [task_A, task_C, task_D, task_B] \<and>
   query_tasks (sort_by_heading Col_priority (sort_by_heading Col_priority ui_priority)) store4 =
     [task_B, task_D, task_A, task_C] \<and>
   sort_by_heading Col_title (sort_by_heading Col_priority ui_priority) =
     ui_priority\<lparr> sort_by := Col_title, sort_desc := False \<rparr>"
proof -
  have q: "query_tasks ui_priority store4 = [task_B, task_D, task_A, task_C]"
    by (simp add: ui_priority_def ui_all_def ui_active_def store4_def task_A_def task_B_def
        task_C_def task_D_def query_tasks_def fetch_def where_list_def order_list_def
        order_rows_def strip_def)
  have q': "query_tasks (ui_priority\<lparr> sort_desc := True \<rparr>) store4 = [task_A, task_C, task_D, task_B]"
    by (simp add: ui_priority_def ui_all_def ui_active_def store4_def task_A_def task_B_def
        task_C_def task_D_def query_tasks_def fetch_def where_list_def order_list_def
        order_rows_def strip_def)
  have u: "sort_by ui_priority = Col_priority" "sort_by ui_priority \<noteq> Col_title"
    "\<not> sort_desc ui_priority"
    by (simp_all add: ui_priority_def ui_all_def ui_active_def)
  have k: "col Col_priority task_A = col Col_priority task_C"
    "order_index task_A = 1" "order_index task_C = 3"
    by (simp_all add: task_A_def task_C_def)
  note t1 = query_order [of ui_priority store4 Col_priority]
  note t2 = query_order [of "sort_by_heading Col_priority ui_priority" store4 Col_title]
  from t1 u(1) have f0: "sort_by_heading Col_priority ui_priority =
      ui_priority\<lparr> sort_desc := \<not> sort_desc ui_priority \<rparr>"
    and f2: "query_tasks (sort_by_heading Col_priority (sort_by_heading Col_priority ui_priority))
      store4 = query_tasks ui_priority store4"
    by blast+
  from f0 u(3) have f: "sort_by_heading Col_priority ui_priority = ui_priority\<lparr> sort_desc := True \<rparr>"
    by simp
  have "sort_by (sort_by_heading Col_priority ui_priority) \<noteq> Col_title"
    using f u by simp
  with t2 have "sort_by_heading Col_title (sort_by_heading Col_priority ui_priority) =
      (sort_by_heading Col_priority ui_priority)\<lparr> sort_by := Col_title, sort_desc := False \<rparr>"
    by blast
  with f have g: "sort_by_heading Col_title (sort_by_heading Col_priority ui_priority) =
     ui_priority\<lparr> sort_by := Col_title, sort_desc := False \<rparr>"
    by simp
  from t1 have "(2::nat) < 3 \<and> 3 < length (query_tasks ui_priority store4) \<longrightarrow>
      col (sort_by ui_priority) (query_tasks ui_priority store4 ! 2) =
        col (sort_by ui_priority) (query_tasks ui_priority store4 ! 3) \<longrightarrow>
      order_index (query_tasks ui_priority store4 ! 2) < order_index (query_tasks ui_priority store4 ! 3) \<or>
      (order_index (query_tasks ui_priority store4 ! 2) = order_index (query_tasks ui_priority store4 ! 3) \<and>
       t_id (query_tasks ui_priority store4 ! 2) \<le> t_id (query_tasks ui_priority store4 ! 3))"
    by blast
  with q k have o: "order_index (query_tasks ui_priority store4 ! 2) <
      order_index (query_tasks ui_priority store4 ! 3)"
    by (simp add: u)
  from q k u have e: "col (sort_by ui_priority) (query_tasks ui_priority store4 ! 2) =
     col (sort_by ui_priority) (query_tasks ui_priority store4 ! 3)"
    by simp
  from q have l: "(2::nat) < 3 \<and> 3 < length (query_tasks ui_priority store4)"
    by simp
  from f q' have d: "sort_desc (sort_by_heading Col_priority ui_priority)"
    "query_tasks (sort_by_heading Col_priority ui_priority) store4 = [task_A, task_C, task_D, task_B]"
    by simp_all
  from f2 q have t: "query_tasks (sort_by_heading Col_priority (sort_by_heading Col_priority ui_priority))
      store4 = [task_B, task_D, task_A, task_C]"
    by simp
  from q l e o u(1,2) d t g show ?thesis by blast
qed

section \<open>Row tags\<close>

lemma date_lt_irrefl: "\<not> date_lt d d"
  by (simp add: date_lt_def)

lemma date_lt_asym: "date_lt a b \<Longrightarrow> \<not> date_lt b a"
  by (auto simp: date_lt_def)

lemma date_trichotomy: "\<not> date_lt d t \<Longrightarrow> d \<noteq> t \<Longrightarrow> date_lt t d" for d t :: date
  by (cases d; cases t) (auto simp: date_lt_def)

lemma strptime_date_Nil: "strptime_date [] = None"
  by (simp add: strptime_date_def)

lemma year_next_day3:
  "year (next_day d) \<le> Suc (year d) \<and> year (next_day (next_day d)) \<le> Suc (year d) \<and>
   year (next_day (next_day (next_day d))) \<le> Suc (year d)"
  by (simp add: next_day_def days_in_month_def)

lemma add_days_3:
  assumes "year today < 9999"
  shows "add_days today 3 = Inr (next_day (next_day (next_day today)))"
proof -
  from year_next_day3 [of today] assms
  have "\<not> 9999 < year (next_day today)" "\<not> 9999 < year (next_day (next_day today))"
    "\<not> 9999 < year (next_day (next_day (next_day today)))"
    by simp_all
  then show ?thesis by (simp add: numeral_3_eq_3)
qed

lemma tag_rows_Inr:
  "tag_rows today rs = Inr shown \<Longrightarrow>
   map fst shown = rs \<and> (\<forall>p \<in> set shown. apply_row_tags today (fst p) = Inr (snd p))"
  by (induction rs arbitrary: shown) (auto split: sum.splits)

lemma tag_rows_total:
  "add_days today 3 = Inr limit \<Longrightarrow> \<exists>shown. tag_rows today rs = Inr shown"
proof (induction rs)
  case Nil
  then show ?case by simp
next
  case (Cons r rs)
  then obtain shown where "tag_rows today rs = Inr shown" by blast
  moreover from Cons.prems have "\<exists>tags. apply_row_tags today r = Inr tags"
    by (simp add: apply_row_tags_def Let_def split: option.splits)
  ultimately show ?case by auto
qed

text \<open>
  Claim C8. Whenever the third day after today exists (it does unless the year is 9999),
  \<^verbatim>\<open>_apply_row_tags\<close> returns a list of tags for every row: \<^verbatim>\<open>done\<close> is in it
  exactly when \<^verbatim>\<open>is_done\<close> is not 0; \<^verbatim>\<open>high\<close> exactly when the priority is
  \<^verbatim>\<open>High\<close>, whatever the other tags; a done row has none of \<^verbatim>\<open>overdue\<close>,
  \<^verbatim>\<open>today\<close>, \<^verbatim>\<open>soon\<close>; a row that is not done and whose \<^verbatim>\<open>due_date\<close> parses
  to a date \<open>d\<close> has \<^verbatim>\<open>overdue\<close> exactly when \<open>d\<close> is before today, \<^verbatim>\<open>today\<close>
  exactly when \<open>d\<close> is today and \<^verbatim>\<open>soon\<close> exactly when \<open>d\<close> is after today and not
  after the third day from today; with a \<^verbatim>\<open>due_date\<close> that does not parse it has none
  of the three. The rows that \<^verbatim>\<open>refresh\<close> shows are the rows of the query, each with
  its tags: the tags select nothing.
\<close>

theorem row_tags:
  "(add_days today 3 = Inr limit \<longrightarrow>
      (\<exists>tags. apply_row_tags today row = Inr tags \<and>
         (''done'' \<in> set tags \<longleftrightarrow> is_done row \<noteq> 0) \<and>
         (''high'' \<in> set tags \<longleftrightarrow> priority row = ''High'') \<and>
         (is_done row \<noteq> 0 \<longrightarrow>
            ''overdue'' \<notin> set tags \<and> ''today'' \<notin> set tags \<and> ''soon'' \<notin> set tags) \<and>
         (is_done row = 0 \<longrightarrow>
            (case strptime_date (due_date row) of
               None \<Rightarrow> ''overdue'' \<notin> set tags \<and> ''today'' \<notin> set tags \<and> ''soon'' \<notin> set tags
             | Some d \<Rightarrow>
                 (''overdue'' \<in> set tags \<longleftrightarrow> date_lt d today) \<and>
                 (''today'' \<in> set tags \<longleftrightarrow> d = today) \<and>
                 (''soon'' \<in> set tags \<longleftrightarrow> date_lt today d \<and> date_le d limit))))) \<and>
   (year today < 9999 \<longrightarrow>
      add_days today 3 = Inr (next_day (next_day (next_day today)))) \<and>
   (add_days today 3 = Inr limit \<longrightarrow>
      (\<exists>ui' shown. refresh today ui s = Inr (ui', shown) \<and>
         map fst shown = query_tasks ui' s \<and>
         (\<forall>r tags. (r, tags) \<in> set shown \<longrightarrow> apply_row_tags today r = Inr tags)))"
  (is "(?H \<longrightarrow> ?A) \<and> (?HB \<longrightarrow> ?B) \<and> (?H \<longrightarrow> ?C)")
proof (intro conjI impI)
  assume h: ?H
  show ?A
  proof (cases "is_done row = 0")
    case False
    then show ?thesis by (simp add: apply_row_tags_def)
  next
    case nd: True
    show ?thesis
    proof (cases "strptime_date (due_date row)")
      case None
      with nd show ?thesis by (simp add: apply_row_tags_def)
    next
      case (Some d)
      then have ne: "due_date row \<noteq> []"
        using strptime_date_Nil by auto
      consider "date_lt d today" | "d = today" | "date_lt today d"
        using date_trichotomy by blast
      then show ?thesis
      proof cases
        case 1
        then have "d \<noteq> today" "\<not> date_lt today d"
          using date_lt_irrefl date_lt_asym by auto
        with 1 nd Some ne show ?thesis by (simp add: apply_row_tags_def)
      next
        case 2
        then have "\<not> date_lt d today" "\<not> date_lt today d"
          using date_lt_irrefl by auto
        with 2 nd Some ne show ?thesis by (simp add: apply_row_tags_def)
      next
        case 3
        then have "d \<noteq> today" "\<not> date_lt d today"
          using date_lt_irrefl date_lt_asym by auto
        with 3 nd Some ne h show ?thesis by (simp add: apply_row_tags_def)
      qed
    qed
  qed
next
  assume ?HB
  then show ?B by (rule add_days_3)
next
  assume h: ?H
  let ?cats = "filter (\<lambda>c. c \<noteq> []) (all_categories s)"
  let ?ui = "case var_filter_category ui of
               All_entries \<Rightarrow> ui
             | Entry c \<Rightarrow> if c \<in> set ?cats then ui else ui\<lparr> var_filter_category := All_entries \<rparr>"
  from tag_rows_total [OF h] obtain shown where t: "tag_rows today (query_tasks ?ui s) = Inr shown"
    by blast
  then have "refresh today ui s = Inr (?ui, shown)"
    by (simp add: refresh_def)
  moreover from tag_rows_Inr [OF t] have "map fst shown = query_tasks ?ui s"
    and "\<forall>r tags. (r, tags) \<in> set shown \<longrightarrow> apply_row_tags today r = Inr tags"
    by auto
  ultimately show ?C by blast
qed

theorem row_tags_witness:
  "year day_0905 < 9999 \<and>
   add_days day_0905 3 = Inr \<lparr> year = 2025, month = 9, day = 8 \<rparr> \<and>
   is_done task_A = 0 \<and> strptime_date (due_date task_A) = Some day_0904 \<and>
   date_lt day_0904 day_0905 \<and>
   apply_row_tags day_0905 task_A = Inr [''overdue''] \<and>
   apply_row_tags day_0905 task_B = Inr [''today'', ''high''] \<and>
   apply_row_tags day_0905 task_C = Inr [''soon''] \<and>
   apply_row_tags day_0905 task_D = Inr [''done''] \<and>
   refresh day_0905 ui_active store4 =
     Inr (ui_active, [(task_A, [''overdue'']), (task_B, [''today'', ''high'']), (task_C, [''soon''])])"
proof -
  have y: "year day_0905 < 9999"
    by (simp add: day_0905_def)
  from row_tags [of day_0905 "\<lparr> year = 2025, month = 9, day = 8 \<rparr>" task_A ui_active store4] y
  have a: "add_days day_0905 3 = Inr (next_day (next_day (next_day day_0905)))"
    by blast
  have n: "next_day (next_day (next_day day_0905)) = \<lparr> year = 2025, month = 9, day = 8 \<rparr>"
    by (simp add: day_0905_def next_day_def days_in_month_def)
  from a n have a': "add_days day_0905 3 = Inr \<lparr> year = 2025, month = 9, day = 8 \<rparr>"
    by simp
  have p: "is_done task_A = 0" "strptime_date (due_date task_A) = Some day_0904"
    "date_lt day_0904 day_0905"
    by (simp_all add: task_A_def strptime_date_def is_digit_def in_range_def digit_val_def
        date_valid_def days_in_month_def day_0904_def day_0905_def date_lt_def)
  from row_tags [of day_0905 "\<lparr> year = 2025, month = 9, day = 8 \<rparr>" task_A ui_active store4] a' p
  obtain tags where ta: "apply_row_tags day_0905 task_A = Inr tags" "''overdue'' \<in> set tags"
    by auto
  have tA: "apply_row_tags day_0905 task_A = Inr [''overdue'']"
    using a' p by (simp add: apply_row_tags_def task_A_def)
  have tB: "apply_row_tags day_0905 task_B = Inr [''today'', ''high'']"
    by (simp add: apply_row_tags_def task_B_def strptime_date_def is_digit_def in_range_def
        digit_val_def date_valid_def days_in_month_def day_0905_def date_lt_def)
  have tC: "apply_row_tags day_0905 task_C = Inr [''soon'']"
    using a' by (simp add: apply_row_tags_def task_C_def strptime_date_def is_digit_def
        in_range_def digit_val_def date_valid_def days_in_month_def day_0905_def date_lt_def
        date_le_def)
  have tD: "apply_row_tags day_0905 task_D = Inr [''done'']"
    by (simp add: apply_row_tags_def task_D_def)
  have q: "query_tasks ui_active store4 = [task_A, task_B, task_C]"
    by (simp add: ui_active_def store4_def task_A_def task_B_def task_C_def task_D_def
        query_tasks_def fetch_def where_list_def order_list_def order_rows_def strip_def)
  have c: "var_filter_category ui_active = All_entries"
    by (simp add: ui_active_def)
  have r: "refresh day_0905 ui_active store4 =
     Inr (ui_active, [(task_A, [''overdue'']), (task_B, [''today'', ''high'']), (task_C, [''soon''])])"
    by (simp add: refresh_def c q tA tB tC)
  from y a' p tA tB tC tD r show ?thesis by blast
qed

section \<open>CSV files\<close>

lemma in_range_iff:
  "in_range lo hi c \<longleftrightarrow> (of_char lo :: nat) \<le> of_char c \<and> (of_char c :: nat) \<le> of_char hi"
  by (simp add: in_range_def less_eq_char_def)

lemma digit_not_space: "is_digit c \<Longrightarrow> \<not> is_space c \<and> c \<noteq> CHR 0x0D"
  by (auto simp: is_digit_def in_range_iff is_space_def Let_def)

lemma in_range_digit:
  "in_range CHR ''1'' CHR ''9'' c \<Longrightarrow> is_digit c"
  "in_range CHR ''0'' CHR ''2'' c \<Longrightarrow> is_digit c"
  "in_range CHR ''0'' CHR ''1'' c \<Longrightarrow> is_digit c"
  "in_range CHR ''1'' CHR ''2'' c \<Longrightarrow> is_digit c"
  by (simp_all add: is_digit_def in_range_iff)

lemma parse_year_Some:
  assumes "parse_year t = Some (y, t1)"
  obtains a b c d where "t = a # b # c # d # t1" "is_digit a" "is_digit b" "is_digit c" "is_digit d"
  using assms by (cases t rule: parse_year.cases) (auto split: if_splits)

lemma expect_dash_Some: "expect_dash t = Some t1 \<Longrightarrow> t = CHR ''-'' # t1"
  by (cases t) (auto split: if_splits)

lemma parse_month_Some:
  assumes "parse_month t = Some (m, t1)"
  obtains a b where "t = a # b # t1" "is_digit a" "is_digit b"
    | a where "t = a # t1" "is_digit a"
  using assms
  by (cases t rule: parse_month.cases) (auto split: if_splits simp: in_range_digit is_digit_def in_range_iff)

lemma parse_day_Some:
  assumes "parse_day t = Some (d, [])"
  obtains a b where "t = [a, b]" "is_digit a \<or> a = CHR '' ''" "is_digit b"
    | a where "t = [a]" "is_digit a"
  using assms
  by (cases t rule: parse_day.cases) (auto split: if_splits simp: in_range_digit is_digit_def in_range_iff)

lemma strip_id:
  assumes "t \<noteq> []" "\<not> is_space (hd t)" "\<not> is_space (last t)"
  shows "strip t = t"
proof -
  from assms have 1: "dropWhile is_space t = t"
    by (simp add: dropWhile_eq_self_iff)
  from assms have "\<not> is_space (hd (rev t))" by (simp add: hd_rev)
  then have 2: "dropWhile is_space (rev t) = rev t"
    by (simp add: dropWhile_eq_self_iff)
  show ?thesis by (simp add: strip_def 1 2)
qed

lemma universal_newlines_id: "CHR 0x0D \<notin> set t \<Longrightarrow> universal_newlines t = t"
  by (induction t rule: universal_newlines.induct) auto

lemma strptime_date_shape:
  assumes "strptime_date t = Some d"
  shows "strip t = t \<and> CHR 0x0D \<notin> set t \<and> t \<noteq> []"
proof -
  from assms obtain y t1 t2 m t3 t4 dd where
    y: "parse_year t = Some (y, t1)" and d1: "expect_dash t1 = Some t2"
    and m: "parse_month t2 = Some (m, t3)" and d2: "expect_dash t3 = Some t4"
    and dd: "parse_day t4 = Some (dd, [])"
    by (auto simp: strptime_date_def split: option.splits prod.splits if_splits)
  from y obtain a b c e where t: "t = a # b # c # e # t1"
    and dg: "is_digit a" "is_digit b" "is_digit c" "is_digit e"
    by (rule parse_year_Some)
  from d1 have t1: "t1 = CHR ''-'' # t2" by (rule expect_dash_Some)
  from d2 have t3: "t3 = CHR ''-'' # t4" by (rule expect_dash_Some)
  from m obtain p where p: "t2 = p @ t3" "CHR 0x0D \<notin> set p"
    by (rule parse_month_Some) (auto dest: digit_not_space)
  from dd have t4: "CHR 0x0D \<notin> set t4 \<and> t4 \<noteq> [] \<and> \<not> is_space (last t4)"
    by (rule parse_day_Some) (auto dest: digit_not_space)
  from t t1 p t3 have shape: "t = a # b # c # e # CHR ''-'' # p @ CHR ''-'' # t4"
    by simp
  from dg have nd: "a \<noteq> CHR 0x0D" "b \<noteq> CHR 0x0D" "c \<noteq> CHR 0x0D" "e \<noteq> CHR 0x0D" "\<not> is_space a"
    by (auto dest: digit_not_space)
  from shape t4 have l: "last t = last t4" by simp
  from shape have h: "hd t = a" "t \<noteq> []" by simp_all
  from shape nd p t4 have cr: "CHR 0x0D \<notin> set t" by auto
  from strip_id [of t] h l nd t4 have "strip t = t" by simp
  with cr h show ?thesis by simp
qed

lemma medium_valid: "''Medium'' \<in> set PRIORITIES"
  by (simp add: PRIORITIES_def)

lemma dict_of_export:
  "dict_of csv_header (map universal_newlines (export_row r)) ''title'' =
     Some (Some (universal_newlines (title r)))"
  "dict_of csv_header (map universal_newlines (export_row r)) ''details'' =
     Some (Some (universal_newlines (csv_field (details r))))"
  "dict_of csv_header (map universal_newlines (export_row r)) ''category'' =
     Some (Some (universal_newlines (csv_field (category r))))"
  "dict_of csv_header (map universal_newlines (export_row r)) ''priority'' =
     Some (Some (universal_newlines (priority r)))"
  "dict_of csv_header (map universal_newlines (export_row r)) ''due_date'' =
     Some (Some (universal_newlines (due_date r)))"
  by (simp_all add: dict_of_def csv_header_def export_row_def)

lemma import_row_export:
  "\<exists>r'. import_row now (dict_of csv_header (map universal_newlines (export_row r))) s =
      Inr (if title_kept r then s\<lparr> rows := rows s @ [r'], seq := next_rowid s \<rparr> else s) \<and>
      task_fields r' = reimported r \<and> is_done r' = 0"
proof -
  let ?pri = "if universal_newlines (priority r) \<in> set PRIORITIES
              then universal_newlines (priority r) else ''Medium''"
  let ?due = "strip (universal_newlines (due_date r))"
  let ?due' = "if ?due \<noteq> [] \<and> strptime_date ?due = None then [] else ?due"
  let ?r' = "\<lparr> t_id = next_rowid s, title = strip (universal_newlines (title r)),
      details = Some (universal_newlines (csv_field (details r))),
      category = Some (universal_newlines (csv_field (category r))), priority = ?pri,
      due_date = ?due', is_done = 0,
      order_index = sql_plus_one (coalesce (sql_max (map order_index (rows s))) 0),
      created_at = now, updated_at = now \<rparr>"
  have p: "?pri \<in> set PRIORITIES" by (simp add: medium_valid)
  note c = create_Inr [OF p, of now "strip (universal_newlines (title r))"
      "Some (universal_newlines (csv_field (details r)))"
      "Some (universal_newlines (csv_field (category r)))" "Some ?due'" s]
  have "import_row now (dict_of csv_header (map universal_newlines (export_row r))) s =
      Inr (if title_kept r then s\<lparr> rows := rows s @ [?r'], seq := next_rowid s \<rparr> else s)"
    by (simp add: import_row_def row_get_def dict_of_export title_kept_def c Let_def
        del: set_simps)
  moreover have "task_fields ?r' = reimported r \<and> is_done ?r' = 0"
    by (simp add: task_fields_def reimported_def Let_def)
  ultimately show ?thesis by blast
qed

lemma import_rows_export:
  assumes "list_all reader_yields (map (map universal_newlines) (map export_row rs))"
  shows "\<exists>s'. import_rows clock k csv_header (map (map universal_newlines) (map export_row rs)) s =
       (s', None) \<and>
     map task_fields (rows s') = map task_fields (rows s) @ map reimported (filter title_kept rs) \<and>
     map is_done (rows s') = map is_done (rows s) @ map (\<lambda>r. 0) (filter title_kept rs)"
  using assms
proof (induction rs arbitrary: k s)
  case Nil
  then show ?case by simp
next
  case (Cons r rs)
  from Cons.prems have y: "reader_yields (map universal_newlines (export_row r))"
    and ys: "list_all reader_yields (map (map universal_newlines) (map export_row rs))"
    by simp_all
  from import_row_export [of "clock k" r s] obtain r' where
    i: "import_row (clock k) (dict_of csv_header (map universal_newlines (export_row r))) s =
      Inr (if title_kept r then s\<lparr> rows := rows s @ [r'], seq := next_rowid s \<rparr> else s)"
    and f: "task_fields r' = reimported r" "is_done r' = 0"
    by blast
  let ?s1 = "if title_kept r then s\<lparr> rows := rows s @ [r'], seq := next_rowid s \<rparr> else s"
  from Cons.IH [OF ys, of "Suc k" ?s1] obtain s' where
    r: "import_rows clock (Suc k) csv_header (map (map universal_newlines) (map export_row rs)) ?s1 =
       (s', None)"
    and m: "map task_fields (rows s') = map task_fields (rows ?s1) @ map reimported (filter title_kept rs)"
      "map is_done (rows s') = map is_done (rows ?s1) @ map (\<lambda>r. 0) (filter title_kept rs)"
    by blast
  have ne: "map universal_newlines (export_row r) \<noteq> []"
    by (simp add: export_row_def)
  from i r ne y have "import_rows clock k csv_header
      (map (map universal_newlines) (map export_row (r # rs))) s = (s', None)"
    by simp
  moreover from m f have "map task_fields (rows s') =
      map task_fields (rows s) @ map reimported (filter title_kept (r # rs))"
    "map is_done (rows s') = map is_done (rows s) @ map (\<lambda>r. 0) (filter title_kept (r # rs))"
    by simp_all
  ultimately show ?case by blast
qed

lemma roundtrip_row_reimported:
  assumes "roundtrip_row r"
  shows "reimported r = task_fields r \<and> title_kept r"
proof -
  from assms obtain d c where dc: "details r = Some d" "category r = Some c"
    and cr: "CHR 0x0D \<notin> set (title r)" "CHR 0x0D \<notin> set d" "CHR 0x0D \<notin> set c"
    and t: "title r \<noteq> []" "strip (title r) = title r"
    and p: "priority r \<in> set PRIORITIES"
    and due: "due_date r = [] \<or> strptime_date (due_date r) \<noteq> None"
    by (auto simp: roundtrip_row_def split: option.splits)
  from p have pcr: "CHR 0x0D \<notin> set (priority r)"
    by (auto simp: PRIORITIES_def)
  from due have d2: "strip (due_date r) = due_date r \<and> CHR 0x0D \<notin> set (due_date r)"
    using strptime_date_shape [of "due_date r"] by (auto simp: strip_def)
  from due have d3: "(if due_date r \<noteq> [] \<and> strptime_date (due_date r) = None then []
      else due_date r) = due_date r"
    by auto
  show ?thesis
    using dc cr t p pcr d2 d3
    by (simp add: reimported_def task_fields_def title_kept_def universal_newlines_id
        csv_field_def Let_def del: set_simps)
qed

lemma roundtrip_rows_reimported:
  "list_all roundtrip_row rs \<Longrightarrow>
   map reimported (filter title_kept rs) = map task_fields rs"
  by (induction rs) (simp_all add: roundtrip_row_reimported)

text \<open>
  What an import makes of an export in general: when the reader yields every record of
  the file, no exception ends the import, and a task is inserted for every exported row
  whose title is not blank, in the order of the export, with the values \<open>reimported\<close>.
\<close>

lemma export_import_reimported:
  assumes "rows s0 = []"
    and "list_all reader_yields (read_text_mode (on_export_csv ui s))"
  shows "\<exists>s'. on_import_csv clock (read_text_mode (on_export_csv ui s)) s0 = (s', None) \<and>
     map task_fields (rows s') = map reimported (filter title_kept (query_tasks ui s))"
proof -
  from assms(2) have y: "reader_yields (map universal_newlines csv_header)"
    and ys: "list_all reader_yields
      (map (map universal_newlines) (map export_row (query_tasks ui s)))"
    by (simp_all add: read_text_mode_def on_export_csv_def)
  from import_rows_export [OF ys, of clock 0 s0] assms(1) obtain s' where
    i: "import_rows clock 0 (map universal_newlines csv_header)
          (map (map universal_newlines) (map export_row (query_tasks ui s))) s0 = (s', None)"
    and m: "map task_fields (rows s') = map reimported (filter title_kept (query_tasks ui s))"
    by (auto simp: csv_header_def)
  from i y have "on_import_csv clock (read_text_mode (on_export_csv ui s)) s0 = (s', None)"
    by (simp add: on_import_csv_def read_text_mode_def on_export_csv_def)
  with m show ?thesis by blast
qed

text \<open>
  Claim C6, as the code has it by design. The import strips the title and the due date,
  skips a row with a blank title, reads an empty field as the empty text, takes a
  priority outside the enumeration as \<^verbatim>\<open>Medium\<close> and clears a due date that does not
  parse; the reader refuses a field of more than 131072 characters. So the records that
  an export writes, read back and imported into an empty store, give title, details,
  category, priority and due date of every exported row again, in the order of the
  export and with no exception ending the import, when in each exported row the title
  is not empty and has no surrounding whitespace, details and category are not
  \<^verbatim>\<open>NULL\<close>, the priority is one of the enumeration and the due date is empty or
  parses, when no field that the reader gets is longer than its limit, and when the new
  row ids are in the 64-bit range. Nothing is said of a text with a carriage return or
  a NUL character in it: title, details and category hold no carriage return, and no
  field of the file holds a NUL character. With no active filter the export holds every
  row of the table.
\<close>

theorem csv_roundtrip:
  "(rows s0 = [] \<and> max (seq s0) 0 + int (length (query_tasks ui s)) \<le> INT64_MAX \<and>
    list_all reader_yields (read_text_mode (on_export_csv ui s)) \<and>
    list_all (list_all nul_free) (on_export_csv ui s) \<and>
    list_all roundtrip_row (query_tasks ui s) \<longrightarrow>
      (\<exists>s'. on_import_csv clock (read_text_mode (on_export_csv ui s)) s0 = (s', None) \<and>
         map task_fields (rows s') = map task_fields (query_tasks ui s))) \<and>
   (where_list ui = [] \<longrightarrow>
      set (query_tasks ui s) = set (rows s) \<and> length (query_tasks ui s) = length (rows s))"
  (is "(?H \<longrightarrow> ?A) \<and> (?HB \<longrightarrow> ?B)")
proof (intro conjI impI)
  assume h: ?H
  then have e: "rows s0 = []"
    and y: "list_all reader_yields (read_text_mode (on_export_csv ui s))"
    and r: "list_all roundtrip_row (query_tasks ui s)"
    by blast+
  from export_import_reimported [OF e y, of clock] r show ?A
    by (simp add: roundtrip_rows_reimported)
next
  assume ?HB
  then show "set (query_tasks ui s) = set (rows s)"
    by (simp add: query_tasks_def set_fetch)
  from \<open>?HB\<close> show "length (query_tasks ui s) = length (rows s)"
    by (simp add: query_tasks_def fetch_def length_order_rows)
qed

text \<open>
  Claim C6 as stated fails on a task that \<^verbatim>\<open>create\<close> is given with spaces around
  its title and without details: the column \<^verbatim>\<open>details\<close> holds \<^verbatim>\<open>NULL\<close>, the export
  writes an empty field for it, and the import stores the title stripped and the empty
  text as details.
\<close>

theorem csv_roundtrip_counterexample:
  "create ''2025-09-05T10:00:00'' '' Pay rent '' None (Some ''home'') ''High''
     (Some ''2025-09-06'') store0 = Inr (store_null, 1) \<and>
   map task_fields (query_tasks ui_all store_null) =
     [('' Pay rent '', None, Some ''home'', ''High'', ''2025-09-06'')] \<and>
   snd (on_import_csv clock0 (read_text_mode (on_export_csv ui_all store_null)) store0) = None \<and>
   map task_fields (rows (fst (on_import_csv clock0
      (read_text_mode (on_export_csv ui_all store_null)) store0))) =
     [(''Pay rent'', Some [], Some ''home'', ''High'', ''2025-09-06'')]"
proof -
  have 1: "create ''2025-09-05T10:00:00'' '' Pay rent '' None (Some ''home'') ''High''
     (Some ''2025-09-06'') store0 = Inr (store_null, 1)"
    by (simp add: store0_def store_null_def create_def next_rowid_def coalesce_def
        sql_plus_one_def INT64_MAX_def PRIORITIES_def Let_def)
  have q: "query_tasks ui_all store_null = rows store_null"
    by (simp add: ui_all_def ui_active_def store_null_def query_tasks_def fetch_def
        where_list_def order_list_def order_rows_def strip_def)
  have e: "read_text_mode (on_export_csv ui_all store_null) =
      [csv_header,
       [''1'', '' Pay rent '', [], ''home'', ''High'', ''2025-09-06'', ''0'',
        ''2025-09-05T10:00:00'', ''2025-09-05T10:00:00'', ''1'']]"
    by (simp only: on_export_csv_def q)
      (simp add: read_text_mode_def store_null_def export_row_def show_order_index_def
        INT64_MAX_def csv_header_def show_int_def show_nat.simps digit_char_def
        csv_field_def)
  have p: "strptime_date ''2025-09-06'' \<noteq> None"
    by (simp add: strptime_date_def is_digit_def in_range_def digit_val_def date_valid_def
        days_in_month_def)
  have s: "strip ''2025-09-06'' = ''2025-09-06''" "strip '' Pay rent '' = ''Pay rent''"
    by (simp_all add: strip_def is_space_def)
  have i: "on_import_csv clock0
      [csv_header,
       [''1'', '' Pay rent '', [], ''home'', ''High'', ''2025-09-06'', ''0'',
        ''2025-09-05T10:00:00'', ''2025-09-05T10:00:00'', ''1'']] store0 =
      (\<lparr> rows =
         [\<lparr> t_id = 1, title = ''Pay rent'', details = Some [], category = Some ''home'',
            priority = ''High'', due_date = ''2025-09-06'', is_done = 0, order_index = 1,
            created_at = ''2025-09-05T10:00:00'', updated_at = ''2025-09-05T10:00:00'' \<rparr>],
         seq = 1 \<rparr>, None)"
    using p
    by (simp add: on_import_csv_def reader_yields_def field_size_limit_def import_row_def
        row_get_def dict_of_def csv_header_def s create_def next_rowid_def coalesce_def
        sql_plus_one_def INT64_MAX_def store0_def clock0_def PRIORITIES_def Let_def)
  from 1 show ?thesis
    by (simp only: q e i) (simp add: store_null_def task_fields_def)
qed

theorem csv_roundtrip_witness:
  "rows store0 = [] \<and> max (seq store0) 0 + int (length (query_tasks ui_all store3)) \<le> INT64_MAX \<and>
   list_all reader_yields (read_text_mode (on_export_csv ui_all store3)) \<and>
   list_all (list_all nul_free) (on_export_csv ui_all store3) \<and>
   list_all roundtrip_row (query_tasks ui_all store3) \<and>
   where_list ui_all = [] \<and>
   length (query_tasks ui_all store3) = length (rows store3) \<and>
   (\<exists>s'. on_import_csv clock0 (read_text_mode (on_export_csv ui_all store3)) store0 = (s', None) \<and>
      map task_fields (rows s') = map task_fields (query_tasks ui_all store3))"
proof -
  have h: "rows store0 = []" "where_list ui_all = []" "seq store0 = 0"
    by (simp_all add: store0_def ui_all_def ui_active_def where_list_def strip_def)
  have q: "query_tasks ui_all store3 = [task_A, task_B, task_C]"
    by (simp add: ui_all_def ui_active_def store3_def task_A_def task_B_def task_C_def
        query_tasks_def fetch_def where_list_def order_list_def order_rows_def strip_def)
  have n: "max (seq store0) 0 + int (length (query_tasks ui_all store3)) \<le> INT64_MAX"
    by (simp add: q h INT64_MAX_def)
  have x: "on_export_csv ui_all store3 =
      [csv_header,
       [''1'', ''A'', [], ''home'', ''Medium'', ''2025-09-04'', ''0'',
        ''2025-09-01T08:00:00'', ''2025-09-01T08:00:00'', ''1''],
       [''2'', ''B'', [], ''work'', ''High'', ''2025-09-05'', ''0'',
        ''2025-09-01T08:00:01'', ''2025-09-01T08:00:01'', ''2''],
       [''3'', ''C'', [], ''HOME page'', ''Medium'', ''2025-09-07'', ''0'',
        ''2025-09-01T08:00:02'', ''2025-09-01T08:00:02'', ''3'']]"
    by (simp only: on_export_csv_def q)
      (simp add: task_A_def task_B_def task_C_def export_row_def show_order_index_def
        INT64_MAX_def show_int_def show_nat.simps digit_char_def csv_field_def)
  have y: "list_all reader_yields (read_text_mode (on_export_csv ui_all store3))"
    by (simp only: x)
      (simp add: read_text_mode_def csv_header_def reader_yields_def field_size_limit_def)
  have z: "list_all (list_all nul_free) (on_export_csv ui_all store3)"
    by (simp only: x) (simp add: csv_header_def nul_free_def)
  have a: "roundtrip_row task_A"
    by (simp add: roundtrip_row_def task_A_def strip_def is_space_def PRIORITIES_def
        strptime_date_def is_digit_def in_range_def digit_val_def date_valid_def
        days_in_month_def)
  have b: "roundtrip_row task_B"
    by (simp add: roundtrip_row_def task_B_def strip_def is_space_def PRIORITIES_def
        strptime_date_def is_digit_def in_range_def digit_val_def date_valid_def
        days_in_month_def)
  have c: "roundtrip_row task_C"
    by (simp add: roundtrip_row_def task_C_def strip_def is_space_def PRIORITIES_def
        strptime_date_def is_digit_def in_range_def digit_val_def date_valid_def
        days_in_month_def)
  from q a b c have l: "list_all roundtrip_row (query_tasks ui_all store3)"
    by simp
  note t = csv_roundtrip [of store0 ui_all store3 clock0]
  from t h(1) n y z l
  have 1: "\<exists>s'. on_import_csv clock0 (read_text_mode (on_export_csv ui_all store3)) store0 =
        (s', None) \<and>
      map task_fields (rows s') = map task_fields (query_tasks ui_all store3)"
    by blast
  from t h(2) have 2: "length (query_tasks ui_all store3) = length (rows store3)"
    by blast
  from h(1,2) n y z l 1 2 show ?thesis by blast
qed

text \<open>
  The dialog does not check the due date (the check in \<^verbatim>\<open>on_ok\<close> is commented out),
  so it stores the text \<^verbatim>\<open>tomorrow\<close> as one; the export writes it and the import,
  which does check, clears it.
\<close>

lemma unchecked_due_date_cleared:
  "on_add ''2025-09-05T10:00:00'' dialog_tomorrow store0 = Inr store_tomorrow \<and>
   map due_date (query_tasks ui_all store_tomorrow) = [''tomorrow''] \<and>
   map due_date (rows (fst (on_import_csv clock0
      (read_text_mode (on_export_csv ui_all store_tomorrow)) store0))) = [[]]"
proof -
  have 1: "on_add ''2025-09-05T10:00:00'' dialog_tomorrow store0 = Inr store_tomorrow"
    by (simp add: dialog_tomorrow_def store0_def store_tomorrow_def on_add_def on_ok_def
        strip_def is_space_def create_def next_rowid_def coalesce_def sql_plus_one_def
        INT64_MAX_def PRIORITIES_def Let_def)
  have q: "query_tasks ui_all store_tomorrow = rows store_tomorrow"
    by (simp add: ui_all_def ui_active_def store_tomorrow_def query_tasks_def fetch_def
        where_list_def order_list_def order_rows_def strip_def)
  have e: "read_text_mode (on_export_csv ui_all store_tomorrow) =
      [csv_header,
       [''1'', ''Pay rent'', [], ''home'', ''Medium'', ''tomorrow'', ''0'',
        ''2025-09-05T10:00:00'', ''2025-09-05T10:00:00'', ''1'']]"
    by (simp only: on_export_csv_def q)
      (simp add: read_text_mode_def store_tomorrow_def export_row_def show_order_index_def
        INT64_MAX_def csv_header_def show_int_def show_nat.simps digit_char_def
        csv_field_def)
  have p: "strptime_date ''tomorrow'' = None"
    by (simp add: strptime_date_def is_digit_def in_range_def)
  have s: "strip ''tomorrow'' = ''tomorrow''" "strip ''Pay rent'' = ''Pay rent''"
    by (simp_all add: strip_def is_space_def)
  have i: "map due_date (rows (fst (on_import_csv clock0
      [csv_header,
       [''1'', ''Pay rent'', [], ''home'', ''Medium'', ''tomorrow'', ''0'',
        ''2025-09-05T10:00:00'', ''2025-09-05T10:00:00'', ''1'']] store0))) = [[]]"
    by (simp add: on_import_csv_def reader_yields_def field_size_limit_def import_row_def
        row_get_def dict_of_def csv_header_def s p create_def sql_plus_one_def INT64_MAX_def
        store0_def PRIORITIES_def Let_def)
  from 1 q e i show ?thesis
    by (simp add: store_tomorrow_def)
qed

lemma import_row_tolerant:
  assumes "row ''title'' \<noteq> Some None" "row ''due_date'' \<noteq> Some None"
  shows "\<exists>t dd. row_get row ''title'' [] = Some t \<and> row_get row ''due_date'' [] = Some dd \<and>
     (strip t = [] \<longrightarrow> import_row now row s = Inr s) \<and>
     (strip t \<noteq> [] \<longrightarrow>
        (\<exists>r. import_row now row s = Inr (s\<lparr> rows := rows s @ [r], seq := t_id r \<rparr>) \<and>
           t_id r = next_rowid s \<and> title r = strip t \<and>
           details r = row_get row ''details'' [] \<and>
           category r = row_get row ''category'' [] \<and>
           priority r =
             (case row ''priority'' of
                Some (Some p) \<Rightarrow> if p \<in> set PRIORITIES then p else ''Medium''
              | _ \<Rightarrow> ''Medium'') \<and>
           priority r \<in> set PRIORITIES \<and>
           due_date r =
             (if strip dd \<noteq> [] \<and> strptime_date (strip dd) = None then [] else strip dd) \<and>
           is_done r = 0 \<and>
           order_index r = sql_plus_one (coalesce (sql_max (map order_index (rows s))) 0) \<and>
           created_at r = now \<and> updated_at r = now))"
proof -
  have "\<exists>t. row_get row k [] = Some t" if "row k \<noteq> Some None" for k
  proof (cases "row k")
    case None
    then show ?thesis by (simp add: row_get_def)
  next
    case (Some v)
    with that obtain t where "v = Some t" by (cases v) auto
    with Some show ?thesis by (simp add: row_get_def)
  qed
  with assms obtain t dd where
    g: "row_get row ''title'' [] = Some t" "row_get row ''due_date'' [] = Some dd"
    by blast
  let ?pri = "case row ''priority'' of
                Some (Some p) \<Rightarrow> if p \<in> set PRIORITIES then p else ''Medium''
              | _ \<Rightarrow> ''Medium''"
  let ?due = "if strip dd \<noteq> [] \<and> strptime_date (strip dd) = None then [] else strip dd"
  have p: "?pri \<in> set PRIORITIES"
    by (simp add: medium_valid split: option.splits)
  note c = create_Inr [OF p, of now "strip t" "row_get row ''details'' []"
      "row_get row ''category'' []" "Some ?due" s]
  let ?r = "\<lparr> t_id = next_rowid s, title = strip t,
      details = row_get row ''details'' [], category = row_get row ''category'' [],
      priority = ?pri, due_date = ?due, is_done = 0,
      order_index = sql_plus_one (coalesce (sql_max (map order_index (rows s))) 0),
      created_at = now, updated_at = now \<rparr>"
  show ?thesis
  proof (rule exI [of _ t], rule exI [of _ dd], intro conjI impI)
    show "row_get row ''title'' [] = Some t" "row_get row ''due_date'' [] = Some dd"
      by (rule g)+
    show "import_row now row s = Inr s" if "strip t = []"
      using g that by (simp add: import_row_def)
    show "\<exists>r. import_row now row s = Inr (s\<lparr> rows := rows s @ [r], seq := t_id r \<rparr>) \<and>
           t_id r = next_rowid s \<and> title r = strip t \<and>
           details r = row_get row ''details'' [] \<and>
           category r = row_get row ''category'' [] \<and>
           priority r = ?pri \<and> priority r \<in> set PRIORITIES \<and> due_date r = ?due \<and>
           is_done r = 0 \<and>
           order_index r = sql_plus_one (coalesce (sql_max (map order_index (rows s))) 0) \<and>
           created_at r = now \<and> updated_at r = now" if "strip t \<noteq> []"
    proof -
      from g that have "import_row now row s =
          Inr (s\<lparr> rows := rows s @ [?r], seq := next_rowid s \<rparr>)"
        by (simp add: import_row_def Let_def c del: set_simps)
      with p show ?thesis
        by (intro exI [of _ ?r]) (simp del: set_simps)
    qed
  qed
qed

text \<open>
  Claim C7, at a file whose second record is shorter than the header: the first record
  is imported, then \<^verbatim>\<open>row.get("due_date", "")\<close> is \<^verbatim>\<open>None\<close>, \<^verbatim>\<open>.strip()\<close> raises
  \<^verbatim>\<open>AttributeError\<close>, and the import ends there. A record that is too short to
  have a title ends the import in the same way.
\<close>

theorem import_short_row_aborts:
  "dict_of (hd csv_short_row) (csv_short_row ! 2) ''due_date'' = Some None \<and>
   (\<exists>s'. on_import_csv clock0 csv_short_row store0 = (s', Some AttributeError) \<and>
      map title (rows s') = [''Buy milk'']) \<and>
   on_import_csv clock0 [[''id'', ''title''], [''7'']] store0 = (store0, Some AttributeError)"
  by (simp add: on_import_csv_def csv_short_row_def reader_yields_def field_size_limit_def
      import_row_def row_get_def dict_of_def
      strip_def is_space_def strptime_date_def is_digit_def in_range_def digit_val_def
      date_valid_def days_in_month_def create_def next_rowid_def coalesce_def
      sql_plus_one_def INT64_MAX_def store0_def PRIORITIES_def Let_def)

lemma import_row_appends:
  "import_row now row s = Inr s' \<Longrightarrow>
   \<exists>new. rows s' = rows s @ new \<and> list_all (\<lambda>r. is_done r = 0) new"
  by (auto simp: import_row_def create_def Let_def split: option.splits if_splits sum.splits)

lemma import_rows_appends:
  "\<exists>new. rows (fst (import_rows clock k fieldnames rs s)) = rows s @ new \<and>
     list_all (\<lambda>r. is_done r = 0) new"
proof (induction rs arbitrary: k s)
  case Nil
  then show ?case by simp
next
  case (Cons row rs)
  show ?case
  proof (cases "\<not> reader_yields row \<or> row = []")
    case True
    with Cons.IH [of k s] show ?thesis by auto
  next
    case False
    show ?thesis
    proof (cases "import_row (clock k) (dict_of fieldnames row) s")
      case (Inl e)
      with False show ?thesis by simp
    next
      case (Inr s1)
      from import_row_appends [OF Inr] obtain n1 where
        1: "rows s1 = rows s @ n1" "list_all (\<lambda>r. is_done r = 0) n1" by blast
      from Cons.IH [of "Suc k" s1] obtain n2 where
        2: "rows (fst (import_rows clock (Suc k) fieldnames rs s1)) = rows s1 @ n2"
          "list_all (\<lambda>r. is_done r = 0) n2" by blast
      from 1 2 have "rows (fst (import_rows clock (Suc k) fieldnames rs s1)) = rows s @ (n1 @ n2)"
        "list_all (\<lambda>r. is_done r = 0) (n1 @ n2)"
        by simp_all
      with False Inr show ?thesis by (auto simp del: append_assoc)
    qed
  qed
qed

text \<open>
  Claim C10. The row that a successful \<^verbatim>\<open>create\<close> appends has \<^verbatim>\<open>is_done = 0\<close>. An
  import, whatever the file holds and whether or not an exception ends it, leaves the
  rows of the table in place and appends rows that all have \<^verbatim>\<open>is_done = 0\<close>: a value
  in a column \<^verbatim>\<open>is_done\<close> of the file is never read.
\<close>

theorem created_not_done:
  "(create now ttl det cat pri due s = Inr (s', i) \<longrightarrow>
      (\<exists>r. rows s' = rows s @ [r] \<and> t_id r = i \<and> is_done r = 0)) \<and>
   (\<exists>new. rows (fst (on_import_csv clock f s)) = rows s @ new \<and>
      list_all (\<lambda>r. is_done r = 0) new)"
proof (intro conjI impI)
  assume "create now ttl det cat pri due s = Inr (s', i)"
  then show "\<exists>r. rows s' = rows s @ [r] \<and> t_id r = i \<and> is_done r = 0"
    by (auto simp: create_def Let_def split: if_splits)
next
  show "\<exists>new. rows (fst (on_import_csv clock f s)) = rows s @ new \<and>
      list_all (\<lambda>r. is_done r = 0) new"
  proof (cases f)
    case Nil
    then show ?thesis by (simp add: on_import_csv_def)
  next
    case (Cons fieldnames rest)
    with import_rows_appends [of clock 0 fieldnames rest s] show ?thesis
      by (auto simp: on_import_csv_def)
  qed
qed

theorem created_not_done_witness:
  "create ''2025-09-05T10:00:00'' ''c'' None None ''Low'' None store2 =
     Inr (store2\<lparr> rows := rows store2 @
        [\<lparr> t_id = 3, title = ''c'', details = None, category = None, priority = ''Low'',
           due_date = [], is_done = 0, order_index = 3,
           created_at = ''2025-09-05T10:00:00'', updated_at = ''2025-09-05T10:00:00'' \<rparr>],
        seq := 3 \<rparr>, 3) \<and>
   dict_of (hd csv_done) (csv_done ! 1) ''is_done'' = Some (Some ''1'') \<and>
   (\<exists>r. rows (fst (on_import_csv clock0 csv_done store0)) = [r] \<and>
      title r = ''Buy milk'' \<and> priority r = ''Medium'' \<and> due_date r = [] \<and> is_done r = 0)"
proof -
  let ?r = "\<lparr> t_id = 3, title = ''c'', details = None, category = None, priority = ''Low'',
           due_date = [], is_done = 0, order_index = 3,
           created_at = ''2025-09-05T10:00:00'', updated_at = ''2025-09-05T10:00:00'' \<rparr>"
  let ?s' = "store2\<lparr> rows := rows store2 @ [?r], seq := 3 \<rparr>"
  have c: "create ''2025-09-05T10:00:00'' ''c'' None None ''Low'' None store2 = Inr (?s', 3)"
    by (simp add: create_def store2_def next_rowid_def coalesce_def sql_plus_one_def
        INT64_MAX_def PRIORITIES_def Let_def)
  have d: "dict_of (hd csv_done) (csv_done ! 1) ''is_done'' = Some (Some ''1'')"
    by (simp add: csv_done_def dict_of_def)
  have i: "\<exists>r. rows (fst (on_import_csv clock0 csv_done store0)) = [r] \<and>
      title r = ''Buy milk'' \<and> priority r = ''Medium'' \<and> due_date r = []"
    by (simp add: on_import_csv_def csv_done_def reader_yields_def field_size_limit_def
      import_row_def row_get_def dict_of_def
      strip_def is_space_def strptime_date_def is_digit_def in_range_def digit_val_def
      date_valid_def days_in_month_def is_leap_def create_def sql_plus_one_def INT64_MAX_def
      store0_def PRIORITIES_def Let_def)
  from created_not_done
    [where now = "''2025-09-05T10:00:00''" and ttl = "''c''" and det = None and cat = None
      and pri = "''Low''" and due = None and s = store2 and s' = ?s' and i = 3] c
  have "\<exists>r. rows ?s' = rows store2 @ [r] \<and> t_id r = 3 \<and> is_done r = 0"
    by blast
  from created_not_done [where clock = clock0 and f = csv_done and s = store0]
  obtain new where n: "rows (fst (on_import_csv clock0 csv_done store0)) = rows store0 @ new"
    "list_all (\<lambda>r. is_done r = 0) new"
    by blast
  from i obtain r where r: "rows (fst (on_import_csv clock0 csv_done store0)) = [r]"
      "title r = ''Buy milk''" "priority r = ''Medium''" "due_date r = []"
    by blast
  from n r have "is_done r = 0" by (simp add: store0_def)
  with c d r show ?thesis by blast
qed

end
